theory Spec2Isabelle
  imports Complex_Main "HOL-Library.Finite_Map" "HOL-Library.Char_ord" "HOL-Library.List_Lexorder"
begin

text \<open>
  A model of the collision detector of the CPA/TCPA plugin (\<open>index.js\<close>): the geodetic
  functions, the validation of vessel data, the detector's state with its tracking store
  and alarm, and the evaluation \<open>checkCollisionForVessel\<close>. The definitions follow the
  source function by function; the theorems after them settle the claims C1 to C10 of the
  specification.
\<close>

section \<open>JavaScript numbers and values\<close>

text \<open>
  A JavaScript number is modelled as a finite real or one of the three special values
  the program tests for and produces (\<open>NaN\<close>, \<open>Infinity\<close>, \<open>-Infinity\<close>). Arithmetic
  on finite values is exact real arithmetic: rounding, overflow of finite operands and
  the sign of zero are not modelled (a zero divisor is read as \<open>+0\<close>). The special
  values follow IEEE 754 as JavaScript does: \<open>NaN\<close> propagates through arithmetic and
  makes every comparison false.
\<close>

datatype jsnum = NaN | NegInf | Fin real | PosInf

definition sgn_inf :: "real \<Rightarrow> jsnum" where
  "sgn_inf x = (if 0 < x then PosInf else if x < 0 then NegInf else NaN)"

fun js_neg :: "jsnum \<Rightarrow> jsnum" where
  "js_neg NaN = NaN"
| "js_neg NegInf = PosInf"
| "js_neg PosInf = NegInf"
| "js_neg (Fin a) = Fin (- a)"

fun js_add :: "jsnum \<Rightarrow> jsnum \<Rightarrow> jsnum" where
  "js_add (Fin a) (Fin b) = Fin (a + b)"
| "js_add NaN _ = NaN"
| "js_add _ NaN = NaN"
| "js_add PosInf NegInf = NaN"
| "js_add NegInf PosInf = NaN"
| "js_add PosInf _ = PosInf"
| "js_add _ PosInf = PosInf"
| "js_add NegInf _ = NegInf"
| "js_add _ NegInf = NegInf"

definition js_sub :: "jsnum \<Rightarrow> jsnum \<Rightarrow> jsnum" where
  "js_sub a b = js_add a (js_neg b)"

fun js_mul :: "jsnum \<Rightarrow> jsnum \<Rightarrow> jsnum" where
  "js_mul (Fin a) (Fin b) = Fin (a * b)"
| "js_mul NaN _ = NaN"
| "js_mul _ NaN = NaN"
| "js_mul PosInf (Fin b) = sgn_inf b"
| "js_mul NegInf (Fin b) = sgn_inf (- b)"
| "js_mul (Fin a) PosInf = sgn_inf a"
| "js_mul (Fin a) NegInf = sgn_inf (- a)"
| "js_mul PosInf PosInf = PosInf"
| "js_mul NegInf NegInf = PosInf"
| "js_mul PosInf NegInf = NegInf"
| "js_mul NegInf PosInf = NegInf"

fun js_div :: "jsnum \<Rightarrow> jsnum \<Rightarrow> jsnum" where
  "js_div (Fin a) (Fin b) = (if b = 0 then sgn_inf a else Fin (a / b))"
| "js_div NaN _ = NaN"
| "js_div _ NaN = NaN"
| "js_div (Fin a) PosInf = Fin 0"
| "js_div (Fin a) NegInf = Fin 0"
| "js_div PosInf (Fin b) = (if 0 \<le> b then PosInf else NegInf)"
| "js_div NegInf (Fin b) = (if 0 \<le> b then NegInf else PosInf)"
| "js_div PosInf PosInf = NaN"
| "js_div PosInf NegInf = NaN"
| "js_div NegInf PosInf = NaN"
| "js_div NegInf NegInf = NaN"

text \<open>\<open>a % b\<close>: the remainder has the sign of the dividend (truncated division).\<close>

definition trunc_real :: "real \<Rightarrow> real" where
  "trunc_real x = (if 0 \<le> x then of_int \<lfloor>x\<rfloor> else of_int \<lceil>x\<rceil>)"

fun js_mod :: "jsnum \<Rightarrow> jsnum \<Rightarrow> jsnum" where
  "js_mod (Fin a) (Fin b) = (if b = 0 then NaN else Fin (a - b * trunc_real (a / b)))"
| "js_mod (Fin a) PosInf = Fin a"
| "js_mod (Fin a) NegInf = Fin a"
| "js_mod _ _ = NaN"

fun js_abs :: "jsnum \<Rightarrow> jsnum" where
  "js_abs NaN = NaN"
| "js_abs NegInf = PosInf"
| "js_abs PosInf = PosInf"
| "js_abs (Fin a) = Fin \<bar>a\<bar>"

fun js_sqrt :: "jsnum \<Rightarrow> jsnum" where
  "js_sqrt (Fin a) = (if a < 0 then NaN else Fin (sqrt a))"
| "js_sqrt PosInf = PosInf"
| "js_sqrt _ = NaN"

fun js_sin :: "jsnum \<Rightarrow> jsnum" where
  "js_sin (Fin a) = Fin (sin a)"
| "js_sin _ = NaN"

fun js_cos :: "jsnum \<Rightarrow> jsnum" where
  "js_cos (Fin a) = Fin (cos a)"
| "js_cos _ = NaN"

text \<open>\<open>Math.atan2(y, x)\<close> on finite arguments, by quadrant.\<close>

definition atan2_real :: "real \<Rightarrow> real \<Rightarrow> real" where
  "atan2_real y x =
     (if 0 < x then arctan (y / x)
      else if x < 0 then (if 0 \<le> y then arctan (y / x) + pi else arctan (y / x) - pi)
      else if 0 < y then pi / 2
      else if y < 0 then - (pi / 2)
      else 0)"

fun js_atan2 :: "jsnum \<Rightarrow> jsnum \<Rightarrow> jsnum" where
  "js_atan2 (Fin y) (Fin x) = Fin (atan2_real y x)"
| "js_atan2 NaN _ = NaN"
| "js_atan2 _ NaN = NaN"
| "js_atan2 (Fin y) PosInf = Fin 0"
| "js_atan2 (Fin y) NegInf = Fin (if 0 \<le> y then pi else - pi)"
| "js_atan2 PosInf (Fin x) = Fin (pi / 2)"
| "js_atan2 NegInf (Fin x) = Fin (- (pi / 2))"
| "js_atan2 PosInf PosInf = Fin (pi / 4)"
| "js_atan2 NegInf PosInf = Fin (- (pi / 4))"
| "js_atan2 PosInf NegInf = Fin (3 * pi / 4)"
| "js_atan2 NegInf NegInf = Fin (- (3 * pi / 4))"

text \<open>Comparisons: any comparison with \<open>NaN\<close> is false.\<close>

fun js_lt :: "jsnum \<Rightarrow> jsnum \<Rightarrow> bool" where
  "js_lt (Fin a) (Fin b) = (a < b)"
| "js_lt NaN _ = False"
| "js_lt _ NaN = False"
| "js_lt NegInf NegInf = False"
| "js_lt NegInf _ = True"
| "js_lt PosInf _ = False"
| "js_lt (Fin a) PosInf = True"
| "js_lt (Fin a) NegInf = False"

definition js_gt :: "jsnum \<Rightarrow> jsnum \<Rightarrow> bool" where
  "js_gt a b = js_lt b a"

definition js_le :: "jsnum \<Rightarrow> jsnum \<Rightarrow> bool" where
  "js_le a b = (a \<noteq> NaN \<and> b \<noteq> NaN \<and> (js_lt a b \<or> a = b))"

definition js_ge :: "jsnum \<Rightarrow> jsnum \<Rightarrow> bool" where
  "js_ge a b = js_le b a"

text \<open>\<open>!x\<close> on a number: zero and \<open>NaN\<close> are falsy.\<close>

definition falsy :: "jsnum \<Rightarrow> bool" where
  "falsy x = (x = Fin 0 \<or> x = NaN)"

text \<open>
  The values a vessel's optional course and speed take: \<open>undefined\<close>, \<open>null\<close> or a
  number (values of other JavaScript types are not modelled).
\<close>

datatype jsval = Undefined | Null | Num jsnum

fun typeof_number :: "jsval \<Rightarrow> bool" where
  "typeof_number (Num _) = True"
| "typeof_number _ = False"

fun ToNumber :: "jsval \<Rightarrow> jsnum" where
  "ToNumber Undefined = NaN"
| "ToNumber Null = Fin 0"
| "ToNumber (Num n) = n"

definition isNaN :: "jsval \<Rightarrow> bool" where
  "isNaN v = (ToNumber v = NaN)"

definition nullish :: "jsval \<Rightarrow> bool" where
  "nullish v = (v = Undefined \<or> v = Null)"

text \<open>The truthiness of such a value.\<close>

fun truthyValue :: "jsval \<Rightarrow> bool" where
  "truthyValue (Num n) = (\<not> falsy n)"
| "truthyValue _ = False"

section \<open>Constants\<close>

text \<open>The fields of \<open>GEO\<close> and \<open>DETECTION\<close> that the detector reads.\<close>

definition MEAN_RADIUS_M :: real where "MEAN_RADIUS_M = 63710088 / 10"
definition ANGLE_TO_RAD :: real where "ANGLE_TO_RAD = pi / 180"
definition TO_DEGREES :: real where "TO_DEGREES = 180 / pi"

definition RELATIVE_VELOCITY_FLOOR :: real where "RELATIVE_VELOCITY_FLOOR = 1 / 100"
definition MAX_VESSEL_SPEED_MPS :: real where "MAX_VESSEL_SPEED_MPS = 30"
definition JUMP_SPEED_FACTOR :: real where "JUMP_SPEED_FACTOR = 3 / 2"
definition LAT_BOUND :: real where "LAT_BOUND = 90"
definition LON_BOUND :: real where "LON_BOUND = 180"
definition VESSEL_TRACKING_LIMIT :: nat where "VESSEL_TRACKING_LIMIT = 1000"
definition CLEANUP_FREQUENCY :: nat where "CLEANUP_FREQUENCY = 100"

section \<open>Vessel snapshots\<close>

record position =
  latitude :: jsval
  longitude :: jsval

text \<open>
  A vessel snapshot as \<open>getVesselData\<close> builds it. A missing (\<open>null\<close>) position object
  is \<open>None\<close>. The design fields \<open>length\<close> and \<open>beam\<close> are never read by the detector
  and are left out.
\<close>

record vessel =
  position :: "position option"
  course :: jsval
  speed :: jsval
  timestamp :: jsnum

section \<open>Pure utility functions\<close>

definition haversineDistance :: "position option \<Rightarrow> position option \<Rightarrow> jsnum" where
  "haversineDistance from to =
     (case (from, to) of
        (Some f, Some t) \<Rightarrow>
          if \<not> typeof_number (latitude f) \<or> \<not> typeof_number (longitude f) \<or>
             \<not> typeof_number (latitude t) \<or> \<not> typeof_number (longitude t)
          then NaN
          else
            let lat1Rad = js_mul (ToNumber (latitude f)) (Fin ANGLE_TO_RAD);
                lat2Rad = js_mul (ToNumber (latitude t)) (Fin ANGLE_TO_RAD);
                deltaLat = js_mul (js_sub (ToNumber (latitude t)) (ToNumber (latitude f)))
                             (Fin ANGLE_TO_RAD);
                deltaLon = js_mul (js_sub (ToNumber (longitude t)) (ToNumber (longitude f)))
                             (Fin ANGLE_TO_RAD);
                halfDeltaLatSin = js_sin (js_div deltaLat (Fin 2));
                halfDeltaLonSin = js_sin (js_div deltaLon (Fin 2));
                haversineA =
                  js_add (js_mul halfDeltaLatSin halfDeltaLatSin)
                    (js_mul (js_mul (js_mul (js_cos lat1Rad) (js_cos lat2Rad)) halfDeltaLonSin)
                       halfDeltaLonSin);
                angularDist =
                  js_mul (Fin 2)
                    (js_atan2 (js_sqrt haversineA) (js_sqrt (js_sub (Fin 1) haversineA)))
            in js_mul (Fin MEAN_RADIUS_M) angularDist
      | _ \<Rightarrow> NaN)"

text \<open>\<open>calculateDistance\<close> returns \<open>null\<close> (here \<open>None\<close>) when no distance can be computed.\<close>

definition calculateDistance :: "position option \<Rightarrow> position option \<Rightarrow> jsnum option" where
  "calculateDistance from to =
     (if from = None \<or> to = None then None
      else let dist = haversineDistance from to
           in if dist = NaN then None else Some dist)"

definition computeForwardAzimuth :: "position option \<Rightarrow> position option \<Rightarrow> jsnum option" where
  "computeForwardAzimuth origin destination =
     (case (origin, destination) of
        (Some orig, Some dest) \<Rightarrow>
          if \<not> typeof_number (latitude orig) \<or> \<not> typeof_number (longitude orig) \<or>
             \<not> typeof_number (latitude dest) \<or> \<not> typeof_number (longitude dest)
          then None
          else
            let originLatRad = js_mul (ToNumber (latitude orig)) (Fin ANGLE_TO_RAD);
                destLatRad = js_mul (ToNumber (latitude dest)) (Fin ANGLE_TO_RAD);
                lonDiffRad = js_mul (js_sub (ToNumber (longitude dest)) (ToNumber (longitude orig)))
                               (Fin ANGLE_TO_RAD);
                sinLonDiff = js_sin lonDiffRad;
                cosLonDiff = js_cos lonDiffRad;
                sinOriginLat = js_sin originLatRad;
                cosOriginLat = js_cos originLatRad;
                sinDestLat = js_sin destLatRad;
                cosDestLat = js_cos destLatRad;
                eastComponent = js_mul sinLonDiff cosDestLat;
                northComponent =
                  js_sub (js_mul cosOriginLat sinDestLat)
                    (js_mul (js_mul sinOriginLat cosDestLat) cosLonDiff);
                azimuthRad = js_atan2 eastComponent northComponent
            in Some (js_mod (js_add (js_mul azimuthRad (Fin TO_DEGREES)) (Fin 360)) (Fin 360))
      | _ \<Rightarrow> None)"

record cpaResult =
  cpaDistance :: jsnum
  tcpaSeconds :: jsnum
  diverging :: bool
  relativeSpeed :: jsnum
  parallelCourse :: bool

definition calculateCPA :: "vessel \<Rightarrow> vessel \<Rightarrow> cpaResult option" where
  "calculateCPA vessel1 vessel2 =
     (case (position vessel1, position vessel2) of
        (Some p1, Some p2) \<Rightarrow>
          if nullish (course vessel1) \<or> isNaN (course vessel1) then None
          else if nullish (course vessel2) \<or> isNaN (course vessel2) then None
          else if nullish (speed vessel1) \<or> isNaN (speed vessel1) then None
          else if nullish (speed vessel2) \<or> isNaN (speed vessel2) then None
          else if \<not> typeof_number (latitude p1) \<or> \<not> typeof_number (longitude p1) then None
          else if \<not> typeof_number (latitude p2) \<or> \<not> typeof_number (longitude p2) then None
          else if isNaN (latitude p1) \<or> isNaN (longitude p1) then None
          else if isNaN (latitude p2) \<or> isNaN (longitude p2) then None
          else
            let v1x = js_mul (ToNumber (speed vessel1)) (js_sin (ToNumber (course vessel1)));
                v1y = js_mul (ToNumber (speed vessel1)) (js_cos (ToNumber (course vessel1)));
                v2x = js_mul (ToNumber (speed vessel2)) (js_sin (ToNumber (course vessel2)));
                v2y = js_mul (ToNumber (speed vessel2)) (js_cos (ToNumber (course vessel2)));
                relVelX = js_sub v2x v1x;
                relVelY = js_sub v2y v1y;
                relSpeed = js_sqrt (js_add (js_mul relVelX relVelX) (js_mul relVelY relVelY));
                dLon = js_mul (js_sub (ToNumber (longitude p2)) (ToNumber (longitude p1)))
                         (Fin ANGLE_TO_RAD);
                dLat = js_mul (js_sub (ToNumber (latitude p2)) (ToNumber (latitude p1)))
                         (Fin ANGLE_TO_RAD);
                avgLat = js_mul (js_div (js_add (ToNumber (latitude p1)) (ToNumber (latitude p2)))
                                   (Fin 2)) (Fin ANGLE_TO_RAD);
                relPosX = js_mul (js_mul dLon (js_cos avgLat)) (Fin MEAN_RADIUS_M);
                relPosY = js_mul dLat (Fin MEAN_RADIUS_M)
            in
              if js_lt relSpeed (Fin RELATIVE_VELOCITY_FLOOR) then
                let currentDist = js_sqrt (js_add (js_mul relPosX relPosX) (js_mul relPosY relPosY))
                in Some \<lparr>cpaDistance = currentDist, tcpaSeconds = PosInf, diverging = False,
                         relativeSpeed = Fin 0, parallelCourse = True\<rparr>
              else
                let tcpa = js_div (js_neg (js_add (js_mul relPosX relVelX) (js_mul relPosY relVelY)))
                             (js_add (js_mul relVelX relVelX) (js_mul relVelY relVelY))
                in
                  if js_lt tcpa (Fin 0) then
                    Some \<lparr>cpaDistance = PosInf, tcpaSeconds = Fin 0, diverging = True,
                          relativeSpeed = relSpeed, parallelCourse = False\<rparr>
                  else
                    let cpaX = js_add relPosX (js_mul relVelX tcpa);
                        cpaY = js_add relPosY (js_mul relVelY tcpa);
                        cpaDist = js_sqrt (js_add (js_mul cpaX cpaX) (js_mul cpaY cpaY))
                    in Some \<lparr>cpaDistance = cpaDist, tcpaSeconds = tcpa, diverging = False,
                             relativeSpeed = relSpeed, parallelCourse = False\<rparr>
      | _ \<Rightarrow> None)"

section \<open>Data validation\<close>

text \<open>
  The violation strings of \<open>validateVesselUpdate\<close>, one constructor per message, carrying
  the value the message prints.
\<close>

datatype violation =
    InvalidLatitude jsval
  | LatitudeOutOfBounds jsnum
  | InvalidLongitude jsval
  | LongitudeOutOfBounds jsnum
  | InvalidSpeedNaN
  | NegativeSpeed jsnum
  | InvalidCourseNaN
  | CourseOutOfRange jsnum

record validation =
  valid :: bool
  errors :: "violation list"

text \<open>
  The source pushes its messages onto one list, in the order position, speed, course;
  the model appends the three groups in that order. The source's second parameter
  (\<open>options\<close>) is never read and is left out.
\<close>

definition validateVesselUpdate :: "vessel \<Rightarrow> validation" where
  "validateVesselUpdate vesselData =
     (let positionErrors =
            (case position vesselData of
               None \<Rightarrow> []
             | Some p \<Rightarrow>
                 let lat = latitude p;
                     lon = longitude p
                 in (if \<not> typeof_number lat \<or> isNaN lat then [InvalidLatitude lat]
                     else if js_gt (js_abs (ToNumber lat)) (Fin LAT_BOUND)
                          then [LatitudeOutOfBounds (ToNumber lat)] else []) @
                    (if \<not> typeof_number lon \<or> isNaN lon then [InvalidLongitude lon]
                     else if js_gt (js_abs (ToNumber lon)) (Fin LON_BOUND)
                          then [LongitudeOutOfBounds (ToNumber lon)] else []));
          speedErrors =
            (if speed vesselData \<noteq> Undefined \<and> speed vesselData \<noteq> Null then
               if isNaN (speed vesselData) then [InvalidSpeedNaN]
               else if js_lt (ToNumber (speed vesselData)) (Fin 0)
                    then [NegativeSpeed (ToNumber (speed vesselData))] else []
             else []);
          courseErrors =
            (if course vesselData \<noteq> Undefined \<and> course vesselData \<noteq> Null then
               if isNaN (course vesselData) then [InvalidCourseNaN]
               else if js_lt (ToNumber (course vesselData)) (Fin 0) \<or>
                       js_gt (ToNumber (course vesselData)) (Fin (2 * pi))
                    then [CourseOutOfRange (ToNumber (course vesselData))] else []
             else []);
          errors = positionErrors @ speedErrors @ courseErrors
      in \<lparr>valid = (length errors = 0), errors = errors\<rparr>)"

section \<open>Plain objects and their inherited members\<close>

text \<open>
  \<open>state.collisions\<close> and \<open>state.previousPositions\<close> are plain objects, created by
  \<open>{}\<close> and keyed by the vessel id. \<open>Object.keys\<close> and \<open>delete\<close> see the own properties
  only, and these are modelled as a finite map. A read \<open>obj[key]\<close> that finds no own
  property goes up the prototype chain: the key \<open>__proto__\<close> yields the prototype itself
  and the names of the members of \<open>Object.prototype\<close> yield its functions. An
  assignment \<open>obj['__proto__'] = record\<close> creates no own property: it installs the
  record as the prototype of the object, between the object and \<open>Object.prototype\<close>, and
  the properties of that record are inherited from then on. The installed prototype is
  kept beside the map, \<open>None\<close> as long as the prototype is \<open>Object.prototype\<close>.
\<close>

definition objectPrototypeNames :: "string list" where
  "objectPrototypeNames =
     [''constructor'', ''hasOwnProperty'', ''isPrototypeOf'', ''propertyIsEnumerable'',
      ''toLocaleString'', ''toString'', ''valueOf'', ''__defineGetter__'',
      ''__defineSetter__'', ''__lookupGetter__'', ''__lookupSetter__'']"

text \<open>
  What a read \<open>obj[key]\<close> yields: \<open>undefined\<close>; a record of the kind the object stores
  (an own property, or the installed prototype read through \<open>__proto__\<close>); or any other
  inherited value, of which only the truthiness matters (a function of
  \<open>Object.prototype\<close>, \<open>Object.prototype\<close> itself, or the value of a property of the
  installed prototype).
\<close>

datatype 'a member = Missing | Entry 'a | Foreign bool

fun truthy :: "'a member \<Rightarrow> bool" where
  "truthy Missing = False"
| "truthy (Entry _) = True"
| "truthy (Foreign t) = t"

text \<open>
  The read \<open>obj[key]\<close>. \<open>property r name\<close> is the truthiness of the property \<open>name\<close> of
  a record \<open>r\<close>, and \<open>None\<close> when the record has no such property.
\<close>

definition getMember ::
  "('a \<Rightarrow> string \<Rightarrow> bool option) \<Rightarrow> (string, 'a) fmap \<Rightarrow> 'a option \<Rightarrow> string \<Rightarrow> 'a member" where
  "getMember property own proto key =
     (case fmlookup own key of
        Some r \<Rightarrow> Entry r
      | None \<Rightarrow>
          if key = ''__proto__'' then (case proto of None \<Rightarrow> Foreign True | Some r \<Rightarrow> Entry r)
          else
            (case (case proto of None \<Rightarrow> None | Some r \<Rightarrow> property r key) of
               Some t \<Rightarrow> Foreign t
             | None \<Rightarrow> if key \<in> set objectPrototypeNames then Foreign True else Missing))"

text \<open>
  The assignment \<open>obj[key] = record\<close>: the own properties and the installed prototype
  after it.
\<close>

definition setMember ::
  "string \<Rightarrow> 'a \<Rightarrow> (string, 'a) fmap \<Rightarrow> 'a option \<Rightarrow> (string, 'a) fmap \<times> 'a option" where
  "setMember key r own proto =
     (if key = ''__proto__'' \<and> fmlookup own key = None then (own, Some r)
      else (fmupd key r own, proto))"

section \<open>Position jumps\<close>

text \<open>An entry of \<open>state.previousPositions\<close>: \<open>{position, timestamp}\<close>.\<close>

record trackPoint =
  prevPosition :: "position option"
  prevTimestamp :: jsnum

text \<open>The properties of such an entry, by name, with their truthiness.\<close>

definition trackPointProperty :: "trackPoint \<Rightarrow> string \<Rightarrow> bool option" where
  "trackPointProperty d name =
     (if name = ''position'' then Some (prevPosition d \<noteq> None)
      else if name = ''timestamp'' then Some (\<not> falsy (prevTimestamp d))
      else None)"

text \<open>
  The object \<open>detectPositionJump\<close> returns: \<open>{jumped: false}\<close>, or \<open>jumped: true\<close> with
  the implied speed, the allowed speed, the distance and the elapsed seconds.
\<close>

datatype jumpCheck =
    NotJumped
  | Jumped (impliedSpeed: jsnum) (maxAllowedSpeed: jsnum) (jumpDistance: jsnum) (timeDelta: jsnum)

fun jumped :: "jumpCheck \<Rightarrow> bool" where
  "jumped NotJumped = False"
| "jumped (Jumped _ _ _ _) = True"

definition detectPositionJump :: "vessel \<Rightarrow> trackPoint option \<Rightarrow> jumpCheck" where
  "detectPositionJump vesselData previousData =
     (case previousData of
        None \<Rightarrow> NotJumped
      | Some prev \<Rightarrow>
          if prevPosition prev = None \<or> falsy (prevTimestamp prev) then NotJumped
          else if position vesselData = None \<or> falsy (timestamp vesselData) then NotJumped
          else
            let distance = haversineDistance (prevPosition prev) (position vesselData)
            in if distance = NaN then NotJumped
               else
                 let timeDelta = js_div (js_sub (timestamp vesselData) (prevTimestamp prev)) (Fin 1000)
                 in if js_le timeDelta (Fin 0) then NotJumped
                    else
                      let impliedSpeed = js_div distance timeDelta;
                          maxAllowedSpeed = Fin (MAX_VESSEL_SPEED_MPS * JUMP_SPEED_FACTOR)
                      in if js_gt impliedSpeed maxAllowedSpeed
                         then Jumped impliedSpeed maxAllowedSpeed distance timeDelta
                         else NotJumped)"

section \<open>Collision detection state\<close>

text \<open>The merged configuration the detector reads (the debug options are left out).\<close>

record options =
  safePassingDistanceMeters :: jsnum
  alarmHysteresisMeters :: jsnum
  timeWindowMinutes :: jsnum
  rangeMeters :: jsnum
  PosFreshBefore :: jsnum

record stats =
  checksPerformed :: nat
  alarmsTriggered :: nat
  positionJumpsDetected :: nat
  cpaCalculations :: nat
  geometricFallbacks :: nat
  skippedStaleData :: nat
  skippedOutOfRange :: nat
  lastCleanup :: jsnum

text \<open>
  What a collision check returns: the object tagged \<open>method: 'CPA'\<close> or
  \<open>method: 'GEOMETRIC'\<close>. A \<open>null\<close> bearing or distance is \<open>None\<close>; the geometric
  record's \<open>reason\<close> text names which vessel misses its course or speed.
\<close>

datatype missingSide = OwnVesselMissing | TargetMissing

datatype collision =
    CPA (c_cpaDistance: jsnum) (c_tcpaMinutes: jsnum) (c_relativeSpeed: jsnum)
        (c_parallelCourse: bool) (c_bearing: "jsnum option") (c_distance: "jsnum option")
        (c_targetCourse: jsval) (c_targetSpeed: jsval)
  | GEOMETRIC (g_distance: jsnum) (g_bearing: "jsnum option") (g_reason: missingSide)

text \<open>An entry of \<open>state.collisions\<close>: the collision with the vessel id and its position.\<close>

record collisionEntry =
  entry :: collision
  vesselId :: string
  entryPosition :: "position option"

text \<open>
  The properties of a collision and of an entry, by name, with their truthiness (the
  texts \<open>method\<close> and \<open>reason\<close> are never empty; a \<open>null\<close> bearing or distance is
  falsy).
\<close>

fun collisionProperty :: "collision \<Rightarrow> string \<Rightarrow> bool option" where
  "collisionProperty (CPA d t r p b ds tc ts) name =
     (if name = ''method'' then Some True
      else if name = ''cpaDistance'' then Some (\<not> falsy d)
      else if name = ''tcpaMinutes'' then Some (\<not> falsy t)
      else if name = ''relativeSpeed'' then Some (\<not> falsy r)
      else if name = ''parallelCourse'' then Some p
      else if name = ''bearing'' then Some (case b of None \<Rightarrow> False | Some x \<Rightarrow> \<not> falsy x)
      else if name = ''distance'' then Some (case ds of None \<Rightarrow> False | Some x \<Rightarrow> \<not> falsy x)
      else if name = ''targetCourse'' then Some (truthyValue tc)
      else if name = ''targetSpeed'' then Some (truthyValue ts)
      else None)"
| "collisionProperty (GEOMETRIC d b reason) name =
     (if name = ''method'' then Some True
      else if name = ''distance'' then Some (\<not> falsy d)
      else if name = ''bearing'' then Some (case b of None \<Rightarrow> False | Some x \<Rightarrow> \<not> falsy x)
      else if name = ''reason'' then Some True
      else None)"

definition entryProperty :: "collisionEntry \<Rightarrow> string \<Rightarrow> bool option" where
  "entryProperty e name =
     (if name = ''vesselId'' then Some (vesselId e \<noteq> [])
      else if name = ''position'' then Some (entryPosition e \<noteq> None)
      else collisionProperty (entry e) name)"

text \<open>
  The notification values handed to \<open>app.handleMessage\<close>: the alarm with the threats
  as they stand when it is published (the own properties of \<open>state.collisions\<close>), or
  the cleared (\<open>state: 'normal'\<close>) value.
\<close>

datatype notification =
    AlarmNotification "(string, collisionEntry) fmap"
  | NormalNotification

text \<open>
  The detector's state. \<open>collisions\<close> and \<open>previousPositions\<close> hold the own properties
  of the two objects, \<open>collisionsProto\<close> and \<open>previousPositionsProto\<close> the prototype
  installed in each (\<open>None\<close> for \<open>Object.prototype\<close>). \<open>published\<close> is not a field of
  the source: it records, in order, the notifications handed to \<open>app.handleMessage\<close>,
  so that what the detector emits can be stated. Debug logging and the status timer are
  not modelled.
\<close>

record state =
  selfFullContext :: string
  alarmActive :: bool
  collisions :: "(string, collisionEntry) fmap"
  collisionsProto :: "collisionEntry option"
  previousPositions :: "(string, trackPoint) fmap"
  previousPositionsProto :: "trackPoint option"
  callCount :: nat
  stats :: stats
  published :: "notification list"

definition initialState :: "string \<Rightarrow> jsnum \<Rightarrow> state" where
  "initialState selfCtx now =
     \<lparr>selfFullContext = selfCtx, alarmActive = False, collisions = fmempty,
      collisionsProto = None, previousPositions = fmempty, previousPositionsProto = None,
      callCount = 0,
      stats = \<lparr>checksPerformed = 0, alarmsTriggered = 0, positionJumpsDetected = 0,
               cpaCalculations = 0, geometricFallbacks = 0, skippedStaleData = 0,
               skippedOutOfRange = 0, lastCleanup = now\<rparr>,
      published = []\<rparr>"

text \<open>
  \<open>Date.now()\<close> is the parameter \<open>now\<close>, one reading for a whole evaluation, and
  \<open>getVesselData\<close> is the parameter of the same name: what the source's function
  returns for a context path in the server's store (\<open>None\<close> for \<open>null\<close>).
\<close>

definition isDataFresh :: "options \<Rightarrow> jsnum \<Rightarrow> vessel option \<Rightarrow> bool" where
  "isDataFresh opts now vesselData =
     (case vesselData of
        None \<Rightarrow> False
      | Some v \<Rightarrow>
          if falsy (timestamp v) then False
          else let age = js_div (js_sub now (timestamp v)) (Fin 1000)
               in js_ge age (Fin (- 60)) \<and> js_le age (PosFreshBefore opts))"

definition validateVesselData :: "vessel option \<Rightarrow> bool" where
  "validateVesselData vesselData =
     (case vesselData of
        None \<Rightarrow> False
      | Some v \<Rightarrow> if position v = None then False else valid (validateVesselUpdate v))"

definition publishCollisionNotification :: "bool \<Rightarrow> state \<Rightarrow> state" where
  "publishCollisionNotification isActive s =
     (let notificationValue =
            (if isActive then AlarmNotification (collisions s) else NormalNotification);
          s1 = (if isActive
                then s\<lparr>stats := (stats s)\<lparr>alarmsTriggered := alarmsTriggered (stats s) + 1\<rparr>\<rparr>
                else s)
      in s1\<lparr>published := published s1 @ [notificationValue]\<rparr>)"

definition updateAlarmState :: "bool \<Rightarrow> state \<Rightarrow> state" where
  "updateAlarmState shouldBeActive s =
     (if shouldBeActive \<and> \<not> alarmActive s then
        publishCollisionNotification True (s\<lparr>alarmActive := True\<rparr>)
      else if \<not> shouldBeActive \<and> alarmActive s then
        publishCollisionNotification False (s\<lparr>alarmActive := False\<rparr>)
      else s)"

text \<open>\<open>Object.keys(state.collisions).length > 0\<close>\<close>

definition hasCollisions :: "state \<Rightarrow> bool" where
  "hasCollisions s = (0 < fcard (fmdom (collisions s)))"

text \<open>
  \<open>state.collisions[vesselId]\<close> and \<open>state.collisions[vesselId] = entry\<close>.
\<close>

definition getCollision :: "state \<Rightarrow> string \<Rightarrow> collisionEntry member" where
  "getCollision s vid = getMember entryProperty (collisions s) (collisionsProto s) vid"

definition setCollision :: "string \<Rightarrow> collisionEntry \<Rightarrow> state \<Rightarrow> state" where
  "setCollision vid e s =
     (let (own, proto) = setMember vid e (collisions s) (collisionsProto s)
      in s\<lparr>collisions := own, collisionsProto := proto\<rparr>)"

definition removeCollision :: "string \<Rightarrow> state \<Rightarrow> state" where
  "removeCollision vid s =
     (if truthy (getCollision s vid) then
        (let s1 = s\<lparr>collisions := fmdrop vid (collisions s)\<rparr>
         in updateAlarmState (hasCollisions s1) s1)
      else s)"

text \<open>
  The loop of \<open>cleanupStalePositions\<close> over the keys the map had when the loop began;
  it returns the map and the count of deleted entries.
\<close>

fun cleanupPositionsLoop ::
  "jsnum \<Rightarrow> jsnum \<Rightarrow> string list \<Rightarrow> (string, trackPoint) fmap \<times> nat \<Rightarrow>
   (string, trackPoint) fmap \<times> nat" where
  "cleanupPositionsLoop now maxAge [] acc = acc"
| "cleanupPositionsLoop now maxAge (vid # rest) (m, cleaned) =
     (case fmlookup m vid of
        None \<Rightarrow> cleanupPositionsLoop now maxAge rest (m, cleaned)
      | Some d \<Rightarrow>
          if \<not> falsy (prevTimestamp d) \<and> js_gt (js_sub now (prevTimestamp d)) maxAge
          then cleanupPositionsLoop now maxAge rest (fmdrop vid m, cleaned + 1)
          else cleanupPositionsLoop now maxAge rest (m, cleaned))"

text \<open>
  \<open>Object.keys\<close> lists the keys in insertion order; the model lists them sorted. The
  loops below delete keys one by one and their result does not depend on the order.
\<close>

definition cleanupStalePositions :: "options \<Rightarrow> jsnum \<Rightarrow> state \<Rightarrow> state" where
  "cleanupStalePositions opts now s =
     (let maxAge = js_mul (js_mul (PosFreshBefore opts) (Fin 1000)) (Fin 2);
          (m, cleaned) =
            cleanupPositionsLoop now maxAge (sorted_list_of_fset (fmdom (previousPositions s)))
              (previousPositions s, 0);
          s1 = s\<lparr>previousPositions := m\<rparr>
      in if 0 < cleaned then s1\<lparr>stats := (stats s1)\<lparr>lastCleanup := now\<rparr>\<rparr> else s1)"

fun cleanupCollisionsLoop ::
  "options \<Rightarrow> (string \<Rightarrow> vessel option) \<Rightarrow> jsnum \<Rightarrow> string list \<Rightarrow>
   (string, collisionEntry) fmap \<times> nat \<Rightarrow> (string, collisionEntry) fmap \<times> nat" where
  "cleanupCollisionsLoop opts getVesselData now [] acc = acc"
| "cleanupCollisionsLoop opts getVesselData now (vid # rest) (m, cleaned) =
     (let vesselContext = ''vessels.'' @ vid;
          vesselData = getVesselData vesselContext
      in if vesselData = None \<or> \<not> isDataFresh opts now vesselData
         then cleanupCollisionsLoop opts getVesselData now rest (fmdrop vid m, cleaned + 1)
         else cleanupCollisionsLoop opts getVesselData now rest (m, cleaned))"

definition cleanupStaleCollisions ::
  "options \<Rightarrow> (string \<Rightarrow> vessel option) \<Rightarrow> jsnum \<Rightarrow> state \<Rightarrow> state" where
  "cleanupStaleCollisions opts getVesselData now s =
     (let (m, cleaned) =
            cleanupCollisionsLoop opts getVesselData now
              (sorted_list_of_fset (fmdom (collisions s))) (collisions s, 0);
          s1 = s\<lparr>collisions := m\<rparr>
      in if 0 < cleaned then updateAlarmState (hasCollisions s1) s1 else s1)"

text \<open>
  \<open>state.previousPositions[vesselId]\<close> and \<open>state.previousPositions[vesselId] = point\<close>.
\<close>

definition getPreviousPosition :: "state \<Rightarrow> string \<Rightarrow> trackPoint member" where
  "getPreviousPosition s vid =
     getMember trackPointProperty (previousPositions s) (previousPositionsProto s) vid"

definition setPreviousPosition :: "string \<Rightarrow> trackPoint \<Rightarrow> state \<Rightarrow> state" where
  "setPreviousPosition vid d s =
     (let (own, proto) = setMember vid d (previousPositions s) (previousPositionsProto s)
      in s\<lparr>previousPositions := own, previousPositionsProto := proto\<rparr>)"

text \<open>
  \<open>checkPositionJump\<close> returns whether the position jumped, and the state. Of the values
  the read of the previous position can yield, only a track record can make
  \<open>detectPositionJump\<close> report a jump: any other truthy value (a function or an object
  without a \<open>position\<close>, a number) leaves it at its first test, \<open>!previousData.position\<close>,
  with \<open>{jumped: false}\<close>.
\<close>

definition checkPositionJump ::
  "options \<Rightarrow> jsnum \<Rightarrow> string \<Rightarrow> vessel option \<Rightarrow> state \<Rightarrow> bool \<times> state" where
  "checkPositionJump opts now vid currentData s =
     (let previousData = getPreviousPosition s vid;
          jumpCheck =
            (case (previousData, currentData) of
               (Entry prev, Some cur) \<Rightarrow> detectPositionJump cur (Some prev)
             | _ \<Rightarrow> NotJumped)
      in if jumped jumpCheck then
           (True, s\<lparr>stats := (stats s)\<lparr>positionJumpsDetected :=
                                          positionJumpsDetected (stats s) + 1\<rparr>\<rparr>)
         else
           (case currentData of
              None \<Rightarrow> (False, s)
            | Some cur \<Rightarrow>
                if position cur = None then (False, s)
                else
                  let trackedCount = fcard (fmdom (previousPositions s));
                      atLimit = (VESSEL_TRACKING_LIMIT \<le> trackedCount \<and>
                                 \<not> truthy (getPreviousPosition s vid));
                      s1 = (if atLimit then cleanupStalePositions opts now s else s)
                  in if atLimit \<and> VESSEL_TRACKING_LIMIT \<le> fcard (fmdom (previousPositions s1))
                     then (False, s1)
                     else (False,
                           setPreviousPosition vid
                             \<lparr>prevPosition = position cur, prevTimestamp = timestamp cur\<rparr> s1)))"

text \<open>\<open>checkCPACollision\<close>: the primary method. It returns the collision, if any, and the state.\<close>

definition checkCPACollision ::
  "options \<Rightarrow> vessel \<Rightarrow> vessel \<Rightarrow> state \<Rightarrow> collision option \<times> state" where
  "checkCPACollision opts selfVessel targetVessel s =
     (let cpaResult = calculateCPA selfVessel targetVessel;
          s1 = s\<lparr>stats := (stats s)\<lparr>cpaCalculations := cpaCalculations (stats s) + 1\<rparr>\<rparr>
      in case cpaResult of
           None \<Rightarrow> (None, s1)
         | Some r \<Rightarrow>
             if diverging r then (None, s1)
             else
               let threshold =
                     (if alarmActive s1
                      then js_add (safePassingDistanceMeters opts) (alarmHysteresisMeters opts)
                      else safePassingDistanceMeters opts);
                   tcpaMinutes = js_div (tcpaSeconds r) (Fin 60)
               in if js_gt (cpaDistance r) threshold then (None, s1)
                  else if js_gt tcpaMinutes (timeWindowMinutes opts) \<and> \<not> parallelCourse r
                       then (None, s1)
                       else
                         (Some (CPA (cpaDistance r) tcpaMinutes (relativeSpeed r) (parallelCourse r)
                                  (computeForwardAzimuth (position selfVessel) (position targetVessel))
                                  (calculateDistance (position selfVessel) (position targetVessel))
                                  (if nullish (course targetVessel) then Undefined
                                   else Num (js_mul (ToNumber (course targetVessel)) (Fin TO_DEGREES)))
                                  (speed targetVessel)),
                          s1))"

text \<open>\<open>checkGeometricCollision\<close>: the fallback for vessels without course or speed.\<close>

definition hasCourse :: "vessel \<Rightarrow> bool" where
  "hasCourse v = (\<not> nullish (course v) \<and> \<not> isNaN (course v) \<and>
                  \<not> nullish (speed v) \<and> \<not> isNaN (speed v))"

definition checkGeometricCollision ::
  "options \<Rightarrow> vessel option \<Rightarrow> vessel \<Rightarrow> state \<Rightarrow> collision option \<times> state" where
  "checkGeometricCollision opts selfVessel targetVessel s =
     (case selfVessel of
        None \<Rightarrow> (None, s)
      | Some sv \<Rightarrow>
          if position sv = None \<or> position targetVessel = None then (None, s)
          else
            let selfHasCourse = hasCourse sv;
                targetHasCourse = hasCourse targetVessel
            in if selfHasCourse \<and> targetHasCourse then (None, s)
               else
                 let s1 = s\<lparr>stats := (stats s)\<lparr>geometricFallbacks :=
                                                  geometricFallbacks (stats s) + 1\<rparr>\<rparr>;
                     distance = calculateDistance (position sv) (position targetVessel);
                     threshold =
                       (if alarmActive s1
                        then js_add (js_mul (safePassingDistanceMeters opts) (Fin 2))
                               (alarmHysteresisMeters opts)
                        else js_mul (safePassingDistanceMeters opts) (Fin 2));
                     reason = (if \<not> selfHasCourse then OwnVesselMissing else TargetMissing)
                 in case distance of
                      None \<Rightarrow> (None, s1)
                    | Some d \<Rightarrow>
                        if js_lt d threshold
                        then (Some (GEOMETRIC d
                                      (computeForwardAzimuth (position sv) (position targetVessel))
                                      reason), s1)
                        else (None, s1))"

text \<open>
  \<open>checkCollisionForVessel\<close> returns nothing in the source; the model returns the state
  and which \<open>return\<close> the evaluation left through.
\<close>

datatype outcome =
    InvalidContext
  | SelfUnavailable
  | SelfStale
  | SelfInvalid
  | TargetUnavailable
  | TargetStale
  | TargetInvalid
  | PositionJumped
  | OutOfRange
  | Evaluated "collision option"

text \<open>\<open>context.split('.').pop()\<close>: what follows the last dot.\<close>

definition lastSegment :: "string \<Rightarrow> string" where
  "lastSegment ctx = rev (takeWhile (\<lambda>c. c \<noteq> CHR ''.'') (rev ctx))"

text \<open>
  The cleanup block at the head of \<open>checkCollisionForVessel\<close>, run when the call count
  (already incremented) is a multiple of \<open>CLEANUP_FREQUENCY\<close>: stale positions first,
  then stale threats.
\<close>

definition periodicCleanup ::
  "options \<Rightarrow> (string \<Rightarrow> vessel option) \<Rightarrow> jsnum \<Rightarrow> state \<Rightarrow> state" where
  "periodicCleanup opts getVesselData now s =
     (if callCount s mod CLEANUP_FREQUENCY = 0
      then cleanupStaleCollisions opts getVesselData now (cleanupStalePositions opts now s)
      else s)"

definition checkCollisionForVessel ::
  "options \<Rightarrow> (string \<Rightarrow> vessel option) \<Rightarrow> jsnum \<Rightarrow> string \<Rightarrow> state \<Rightarrow> outcome \<times> state" where
  "checkCollisionForVessel opts getVesselData now targetVesselContext s =
     (if targetVesselContext = [] \<or> CHR ''.'' \<notin> set targetVesselContext then (InvalidContext, s)
      else
        let vid = lastSegment targetVesselContext
        in if vid = [] \<or> vid = ''vessels'' then (InvalidContext, s)
           else
             let s1 = s\<lparr>callCount := callCount s + 1,
                        stats := (stats s)\<lparr>checksPerformed := checksPerformed (stats s) + 1\<rparr>\<rparr>;
                 s2 = periodicCleanup opts getVesselData now s1
             in case getVesselData (selfFullContext s2) of
                  None \<Rightarrow> (SelfUnavailable, s2)
                | Some selfVessel \<Rightarrow>
                    if \<not> isDataFresh opts now (Some selfVessel) then (SelfStale, s2)
                    else if \<not> validateVesselData (Some selfVessel) then (SelfInvalid, s2)
                    else
                      (case getVesselData targetVesselContext of
                         None \<Rightarrow> (TargetUnavailable, removeCollision vid s2)
                       | Some targetVessel \<Rightarrow>
                           if \<not> isDataFresh opts now (Some targetVessel) then
                             (TargetStale,
                              removeCollision vid
                                (s2\<lparr>stats := (stats s2)\<lparr>skippedStaleData :=
                                                          skippedStaleData (stats s2) + 1\<rparr>\<rparr>))
                           else if \<not> validateVesselData (Some targetVessel) then
                             (TargetInvalid, removeCollision vid s2)
                           else
                             let (jump, s3) = checkPositionJump opts now vid (Some targetVessel) s2
                             in if jump then (PositionJumped, s3)
                                else
                                  (case calculateDistance (position selfVessel) (position targetVessel) of
                                     None \<Rightarrow>
                                       (OutOfRange,
                                        removeCollision vid
                                          (s3\<lparr>stats := (stats s3)\<lparr>skippedOutOfRange :=
                                                                    skippedOutOfRange (stats s3) + 1\<rparr>\<rparr>))
                                   | Some distance \<Rightarrow>
                                       if js_gt distance (rangeMeters opts) then
                                         (OutOfRange,
                                          removeCollision vid
                                            (s3\<lparr>stats := (stats s3)\<lparr>skippedOutOfRange :=
                                                                      skippedOutOfRange (stats s3) + 1\<rparr>\<rparr>))
                                       else
                                         let (c1, s4) = checkCPACollision opts selfVessel targetVessel s3;
                                             (c2, s5) =
                                               (case c1 of
                                                  None \<Rightarrow> checkGeometricCollision opts (Some selfVessel)
                                                            targetVessel s4
                                                | Some c \<Rightarrow> (Some c, s4));
                                             s6 =
                                               (case c2 of
                                                  Some c \<Rightarrow>
                                                    setCollision vid
                                                      \<lparr>entry = c, vesselId = vid,
                                                       entryPosition = position targetVessel\<rparr> s5
                                                | None \<Rightarrow>
                                                    s5\<lparr>collisions := fmdrop vid (collisions s5)\<rparr>)
                                         in (Evaluated c2, updateAlarmState (hasCollisions s6) s6))))"

section \<open>The specification's quantities\<close>

text \<open>
  The quantities the specification names, over the reals and in its own words: the
  relative velocity \<open>v = vB - vA\<close> with \<open>x = speed * sin course\<close> and
  \<open>y = speed * cos course\<close>, the tangent-plane relative position \<open>p\<close>, the magnitude
  of a vector and the raw time \<open>- (p . v) / |v|^2\<close>. They are what the theorems
  compare \<open>calculateCPA\<close> with.
\<close>

definition spec_relVelX :: "real \<Rightarrow> real \<Rightarrow> real \<Rightarrow> real \<Rightarrow> real" where
  "spec_relVelX s1 c1 s2 c2 = s2 * sin c2 - s1 * sin c1"

definition spec_relVelY :: "real \<Rightarrow> real \<Rightarrow> real \<Rightarrow> real \<Rightarrow> real" where
  "spec_relVelY s1 c1 s2 c2 = s2 * cos c2 - s1 * cos c1"

definition spec_relPosX :: "real \<Rightarrow> real \<Rightarrow> real \<Rightarrow> real \<Rightarrow> real" where
  "spec_relPosX la1 lo1 la2 lo2 =
     (lo2 - lo1) * ANGLE_TO_RAD * cos ((la1 + la2) / 2 * ANGLE_TO_RAD) * MEAN_RADIUS_M"

definition spec_relPosY :: "real \<Rightarrow> real \<Rightarrow> real" where
  "spec_relPosY la1 la2 = (la2 - la1) * ANGLE_TO_RAD * MEAN_RADIUS_M"

definition spec_norm :: "real \<Rightarrow> real \<Rightarrow> real" where
  "spec_norm x y = sqrt (x * x + y * y)"

definition spec_rawTcpa :: "real \<Rightarrow> real \<Rightarrow> real \<Rightarrow> real \<Rightarrow> real" where
  "spec_rawTcpa px py vx vy = - (px * vx + py * vy) / (vx * vx + vy * vy)"

text \<open>
  A vessel whose position, course and speed are present and finite, with those values;
  and the snapshot with exactly these values.
\<close>

definition finiteVessel :: "vessel \<Rightarrow> real \<Rightarrow> real \<Rightarrow> real \<Rightarrow> real \<Rightarrow> bool" where
  "finiteVessel v la lo c s =
     ((case position v of None \<Rightarrow> False
       | Some p \<Rightarrow> latitude p = Num (Fin la) \<and> longitude p = Num (Fin lo)) \<and>
      course v = Num (Fin c) \<and> speed v = Num (Fin s))"

definition vesselAt :: "real \<Rightarrow> real \<Rightarrow> real \<Rightarrow> real \<Rightarrow> vessel" where
  "vesselAt la lo c s =
     \<lparr>position = Some \<lparr>latitude = Num (Fin la), longitude = Num (Fin lo)\<rparr>,
      course = Num (Fin c), speed = Num (Fin s), timestamp = Fin 1\<rparr>"

text \<open>The violations \<open>validateVesselUpdate\<close> reports for the course, in its order.\<close>

definition isCourseViolation :: "violation \<Rightarrow> bool" where
  "isCourseViolation e = (case e of InvalidCourseNaN \<Rightarrow> True | CourseOutOfRange _ \<Rightarrow> True | _ \<Rightarrow> False)"

definition courseViolations :: "vessel \<Rightarrow> violation list" where
  "courseViolations v = filter isCourseViolation (errors (validateVesselUpdate v))"

text \<open>
  The active threshold in the specification's words: the safe passing distance plus the
  hysteresis margin while the alarm is active, the safe passing distance alone otherwise.
\<close>

definition activeThreshold :: "options \<Rightarrow> bool \<Rightarrow> jsnum" where
  "activeThreshold opts active =
     (if active then js_add (safePassingDistanceMeters opts) (alarmHysteresisMeters opts)
      else safePassingDistanceMeters opts)"

text \<open>
  Inputs for the examples: the schema's default configuration, and a vessel that reports
  an infinite speed (the validator accepts it: the speed is neither \<open>NaN\<close> nor negative).
\<close>

definition defaultOptions :: options where
  "defaultOptions =
     \<lparr>safePassingDistanceMeters = Fin 500, alarmHysteresisMeters = Fin 200,
      timeWindowMinutes = Fin 10, rangeMeters = Fin 18520, PosFreshBefore = Fin 600\<rparr>"

definition infiniteSpeedVessel :: vessel where
  "infiniteSpeedVessel =
     \<lparr>position = Some \<lparr>latitude = Num (Fin 60), longitude = Num (Fin 24)\<rparr>,
      course = Num (Fin 0), speed = Num PosInf, timestamp = Fin 1\<rparr>"

section \<open>Invariants, fragments and the alarm specification\<close>

text \<open>
  The alarm invariant of the specification: the alarm is active exactly when the threat
  set is not empty.
\<close>

definition alarmInvariant :: "state \<Rightarrow> bool" where
  "alarmInvariant s = (alarmActive s = hasCollisions s)"

text \<open>
  The deletion tests of the two cleanup loops, by name: a tracked position is stale when
  its timestamp is truthy and older than the given age; a threat is stale when its
  vessel's data is missing or not fresh.
\<close>

definition stalePosition :: "jsnum \<Rightarrow> jsnum \<Rightarrow> trackPoint \<Rightarrow> bool" where
  "stalePosition now maxAge d =
     (\<not> falsy (prevTimestamp d) \<and> js_gt (js_sub now (prevTimestamp d)) maxAge)"

definition staleCollision :: "options \<Rightarrow> (string \<Rightarrow> vessel option) \<Rightarrow> jsnum \<Rightarrow> string \<Rightarrow> bool" where
  "staleCollision opts getVesselData now vid =
     (getVesselData (''vessels.'' @ vid) = None \<or>
      \<not> isDataFresh opts now (getVesselData (''vessels.'' @ vid)))"

text \<open>
  Named fragments of \<open>checkCollisionForVessel\<close>, for the proofs: the context test, the
  counters, and the two tails of the function (from the position-jump check on, and from
  the primary classification on). The lemma \<open>checkCollisionForVessel_staged\<close> below shows
  that the function is the composition of these fragments.
\<close>

definition validContext :: "string \<Rightarrow> bool" where
  "validContext ctx =
     (\<not> (ctx = [] \<or> CHR ''.'' \<notin> set ctx) \<and>
      \<not> (lastSegment ctx = [] \<or> lastSegment ctx = ''vessels''))"

definition countCall :: "state \<Rightarrow> state" where
  "countCall s =
     s\<lparr>callCount := callCount s + 1,
       stats := (stats s)\<lparr>checksPerformed := checksPerformed (stats s) + 1\<rparr>\<rparr>"

definition countOutOfRange :: "state \<Rightarrow> state" where
  "countOutOfRange s =
     s\<lparr>stats := (stats s)\<lparr>skippedOutOfRange := skippedOutOfRange (stats s) + 1\<rparr>\<rparr>"

definition countStale :: "state \<Rightarrow> state" where
  "countStale s =
     s\<lparr>stats := (stats s)\<lparr>skippedStaleData := skippedStaleData (stats s) + 1\<rparr>\<rparr>"

definition classifyAndStore ::
  "options \<Rightarrow> string \<Rightarrow> vessel \<Rightarrow> vessel \<Rightarrow> state \<Rightarrow> outcome \<times> state" where
  "classifyAndStore opts vid selfVessel targetVessel s3 =
     (let (c1, s4) = checkCPACollision opts selfVessel targetVessel s3;
          (c2, s5) =
            (case c1 of
               None \<Rightarrow> checkGeometricCollision opts (Some selfVessel) targetVessel s4
             | Some c \<Rightarrow> (Some c, s4));
          s6 =
            (case c2 of
               Some c \<Rightarrow>
                 setCollision vid
                   \<lparr>entry = c, vesselId = vid, entryPosition = position targetVessel\<rparr> s5
             | None \<Rightarrow> s5\<lparr>collisions := fmdrop vid (collisions s5)\<rparr>)
      in (Evaluated c2, updateAlarmState (hasCollisions s6) s6))"

definition evaluateTarget ::
  "options \<Rightarrow> jsnum \<Rightarrow> string \<Rightarrow> vessel \<Rightarrow> vessel \<Rightarrow> state \<Rightarrow> outcome \<times> state" where
  "evaluateTarget opts now vid selfVessel targetVessel s2 =
     (let (jump, s3) = checkPositionJump opts now vid (Some targetVessel) s2
      in if jump then (PositionJumped, s3)
         else
           (case calculateDistance (position selfVessel) (position targetVessel) of
              None \<Rightarrow> (OutOfRange, removeCollision vid (countOutOfRange s3))
            | Some distance \<Rightarrow>
                if js_gt distance (rangeMeters opts)
                then (OutOfRange, removeCollision vid (countOutOfRange s3))
                else classifyAndStore opts vid selfVessel targetVessel s3))"

text \<open>
  One alarm-state update as every call site performs it: the threat set has changed (to
  \<open>c\<close>) and \<open>updateAlarmState\<close> is called with its non-emptiness; and a sequence of
  such updates.
\<close>

definition threatSetUpdate :: "(string, collisionEntry) fmap \<Rightarrow> state \<Rightarrow> state" where
  "threatSetUpdate c s = (let s1 = s\<lparr>collisions := c\<rparr> in updateAlarmState (hasCollisions s1) s1)"

fun runThreatSets :: "(string, collisionEntry) fmap list \<Rightarrow> state \<Rightarrow> state" where
  "runThreatSets [] s = s"
| "runThreatSets (c # cs) s = runThreatSets cs (threatSetUpdate c s)"

text \<open>
  The events of the specification's state machine: an activation, carrying the threats,
  exactly when the threat set becomes non-empty from empty, a clearing exactly when it
  becomes empty from non-empty, and nothing otherwise.
\<close>

fun spec_alarmEvents :: "bool \<Rightarrow> (string, collisionEntry) fmap list \<Rightarrow> notification list" where
  "spec_alarmEvents wasNonEmpty [] = []"
| "spec_alarmEvents wasNonEmpty (c # cs) =
     (if \<not> wasNonEmpty \<and> c \<noteq> fmempty then [AlarmNotification c]
      else if wasNonEmpty \<and> c = fmempty then [NormalNotification]
      else []) @ spec_alarmEvents (c \<noteq> fmempty) cs"

text \<open>
  A threat record for the examples.
\<close>

definition exampleThreat :: collisionEntry where
  "exampleThreat =
     \<lparr>entry = GEOMETRIC (Fin 100) None TargetMissing, vesselId = ''X'',
      entryPosition = Some \<lparr>latitude = Num (Fin 60), longitude = Num (Fin 24)\<rparr>\<rparr>"

section \<open>Scenarios for the examples\<close>

text \<open>
  A store whose own vessel and vessel X are both stale at time 10000000; a store whose own
  vessel is fresh at that time while vessel X is stale; and a state that tracks X as a
  threat with the alarm active.
\<close>

definition staleStore :: "string \<Rightarrow> vessel option" where
  "staleStore c =
     (if c = ''vessels.self'' \<or> c = ''vessels.X'' then Some (vesselAt 60 24 0 5) else None)"

definition freshSelfStore :: "string \<Rightarrow> vessel option" where
  "freshSelfStore c =
     (if c = ''vessels.self'' then Some ((vesselAt 60 24 0 5)\<lparr>timestamp := Fin 10000000\<rparr>)
      else if c = ''vessels.X'' then Some (vesselAt 60 24 0 5)
      else None)"

definition threatState :: state where
  "threatState =
     (initialState ''vessels.self'' (Fin 0))
       \<lparr>alarmActive := True, collisions := fmupd ''X'' exampleThreat fmempty\<rparr>"

text \<open>
  A position jump: vessel A was last seen at longitude 0 and is reported at longitude 180
  one second later. Vessel B is tracked as a threat and has no data in the store. The state
  is parameterised by the number of evaluations made so far.
\<close>

definition jumpNow :: jsnum where "jumpNow = Fin 1001000"

definition jumpPrev :: trackPoint where
  "jumpPrev =
     \<lparr>prevPosition = Some \<lparr>latitude = Num (Fin 0), longitude = Num (Fin 0)\<rparr>,
      prevTimestamp = Fin 1000000\<rparr>"

definition jumpTarget :: vessel where
  "jumpTarget = (vesselAt 0 180 0 5)\<lparr>timestamp := Fin 1001000\<rparr>"

definition jumpStore :: "string \<Rightarrow> vessel option" where
  "jumpStore c =
     (if c = ''vessels.self'' then Some ((vesselAt 0 179 0 5)\<lparr>timestamp := Fin 1001000\<rparr>)
      else if c = ''vessels.A'' then Some jumpTarget
      else None)"

definition jumpState :: "nat \<Rightarrow> state" where
  "jumpState n =
     (initialState ''vessels.self'' (Fin 0))
       \<lparr>alarmActive := True, collisions := fmupd ''B'' exampleThreat fmempty,
        previousPositions := fmupd ''A'' jumpPrev fmempty, callCount := n\<rparr>"

section \<open>Runs of evaluations and the tracking bound\<close>

text \<open>
  A run: evaluations one after the other, each with the store and the clock it sees and
  the context that triggered it.
\<close>

fun runChecks ::
  "options \<Rightarrow> ((string \<Rightarrow> vessel option) \<times> jsnum \<times> string) list \<Rightarrow> state \<Rightarrow> state" where
  "runChecks opts [] s = s"
| "runChecks opts ((g, now, ctx) # rest) s =
     runChecks opts rest (snd (checkCollisionForVessel opts g now ctx s))"

text \<open>
  The vessel ids that name an inherited member of a plain object fresh from \<open>{}\<close>.
\<close>

definition inheritedName :: "string \<Rightarrow> bool" where
  "inheritedName key = (key = ''__proto__'' \<or> key \<in> set objectPrototypeNames)"

text \<open>
  \<open>Object.keys(state.previousPositions).length\<close>, and the property that every stored
  timestamp is truthy (the detector stores only snapshots that passed the freshness check).
\<close>

definition trackedCount :: "state \<Rightarrow> nat" where
  "trackedCount s = fcard (fmdom (previousPositions s))"

definition timestampsTruthy :: "state \<Rightarrow> bool" where
  "timestampsTruthy s =
     (\<forall>k d. fmlookup (previousPositions s) k = Some d \<longrightarrow> \<not> falsy (prevTimestamp d))"

text \<open>
  The sweep in the specification's words: an entry is removed when its age exceeds twice
  the freshness limit (in milliseconds).
\<close>

definition spec_olderThan :: "options \<Rightarrow> jsnum \<Rightarrow> trackPoint \<Rightarrow> bool" where
  "spec_olderThan opts now d =
     js_gt (js_sub now (prevTimestamp d)) (js_mul (js_mul (PosFreshBefore opts) (Fin 1000)) (Fin 2))"

definition spec_sweep ::
  "options \<Rightarrow> jsnum \<Rightarrow> (string, trackPoint) fmap \<Rightarrow> (string, trackPoint) fmap" where
  "spec_sweep opts now m =
     fmfilter (\<lambda>k. case fmlookup m k of None \<Rightarrow> False | Some d \<Rightarrow> \<not> spec_olderThan opts now d) m"

text \<open>
  The invariant of the tracking store as long as no vessel id names an inherited member:
  at most \<open>VESSEL_TRACKING_LIMIT\<close> entries, all with truthy timestamps, and no prototype
  installed.
\<close>

definition trackingInvariant :: "state \<Rightarrow> bool" where
  "trackingInvariant s =
     (trackedCount s \<le> VESSEL_TRACKING_LIMIT \<and> timestampsTruthy s \<and>
      previousPositionsProto s = None)"

definition ownNames :: "((string \<Rightarrow> vessel option) \<times> jsnum \<times> string) list \<Rightarrow> bool" where
  "ownNames inputs = list_all (\<lambda>(g, now, ctx). \<not> inheritedName (lastSegment ctx)) inputs"

text \<open>
  A run that fills the store: every context resolves to the same fresh, valid snapshot,
  and the \<open>n\<close> evaluations are for \<open>n\<close> distinct vessels, named v, vv, vvv and so on.
  \<open>fullState\<close> is the state after 1000 of them; \<open>filled n\<close> says that exactly the first
  \<open>n\<close> names are tracked.
\<close>

definition fillNow :: jsnum where "fillNow = Fin 1000000"

definition fillVessel :: vessel where
  "fillVessel = (vesselAt 60 24 0 0)\<lparr>timestamp := Fin 1000000\<rparr>"

definition fillPoint :: trackPoint where
  "fillPoint = \<lparr>prevPosition = position fillVessel, prevTimestamp = timestamp fillVessel\<rparr>"

definition fillStore :: "string \<Rightarrow> vessel option" where
  "fillStore c = Some fillVessel"

definition fillName :: "nat \<Rightarrow> string" where
  "fillName i = replicate (Suc i) CHR ''v''"

definition fillContext :: "nat \<Rightarrow> string" where
  "fillContext i = ''vessels.'' @ fillName i"

definition fillInputs :: "nat \<Rightarrow> ((string \<Rightarrow> vessel option) \<times> jsnum \<times> string) list" where
  "fillInputs n = map (\<lambda>i. (fillStore, fillNow, fillContext i)) [0..<n]"

definition fullState :: state where
  "fullState = runChecks defaultOptions (fillInputs 1000) (initialState ''vessels.self'' (Fin 0))"

definition filled :: "nat \<Rightarrow> state \<Rightarrow> bool" where
  "filled n s =
     ((\<forall>k. fmlookup (previousPositions s) k =
             (if k \<in> fillName ` {..<n} then Some fillPoint else None)) \<and>
      previousPositionsProto s = None)"

section \<open>The closest point of approach on finite inputs\<close>

text \<open>
  On finite inputs \<open>calculateCPA\<close> computes the three branches of the specification:
  the same-velocity case, the diverging case and the converging case.
\<close>

lemma calculateCPA_finite:
  assumes "finiteVessel v1 la1 lo1 c1 s1" and "finiteVessel v2 la2 lo2 c2 s2"
  defines "vx \<equiv> spec_relVelX s1 c1 s2 c2" and "vy \<equiv> spec_relVelY s1 c1 s2 c2"
    and "px \<equiv> spec_relPosX la1 lo1 la2 lo2" and "py \<equiv> spec_relPosY la1 la2"
  shows "calculateCPA v1 v2 =
     Some (if spec_norm vx vy < RELATIVE_VELOCITY_FLOOR then
             \<lparr>cpaDistance = Fin (spec_norm px py), tcpaSeconds = PosInf, diverging = False,
              relativeSpeed = Fin 0, parallelCourse = True\<rparr>
           else if spec_rawTcpa px py vx vy < 0 then
             \<lparr>cpaDistance = PosInf, tcpaSeconds = Fin 0, diverging = True,
              relativeSpeed = Fin (spec_norm vx vy), parallelCourse = False\<rparr>
           else
             \<lparr>cpaDistance = Fin (spec_norm (px + vx * spec_rawTcpa px py vx vy)
                                              (py + vy * spec_rawTcpa px py vx vy)),
              tcpaSeconds = Fin (spec_rawTcpa px py vx vy), diverging = False,
              relativeSpeed = Fin (spec_norm vx vy), parallelCourse = False\<rparr>)"
proof -
  obtain p1 where p1: "position v1 = Some p1" "latitude p1 = Num (Fin la1)"
      "longitude p1 = Num (Fin lo1)" "course v1 = Num (Fin c1)" "speed v1 = Num (Fin s1)"
    using assms(1) by (auto simp: finiteVessel_def split: option.splits)
  obtain p2 where p2: "position v2 = Some p2" "latitude p2 = Num (Fin la2)"
      "longitude p2 = Num (Fin lo2)" "course v2 = Num (Fin c2)" "speed v2 = Num (Fin s2)"
    using assms(2) by (auto simp: finiteVessel_def split: option.splits)
  have nn: "\<not> (vx * vx + vy * vy < 0)"
    by (simp add: not_less)
  have nz: "\<not> spec_norm vx vy < RELATIVE_VELOCITY_FLOOR \<Longrightarrow> vx * vx + vy * vy \<noteq> 0"
    by (auto simp: spec_norm_def RELATIVE_VELOCITY_FLOOR_def)
  have vxe: "s2 * sin c2 + - (s1 * sin c1) = vx" by (simp add: vx_def spec_relVelX_def)
  have vye: "s2 * cos c2 + - (s1 * cos c1) = vy" by (simp add: vy_def spec_relVelY_def)
  have pxe: "(lo2 + - lo1) * ANGLE_TO_RAD * cos ((la1 + la2) / 2 * ANGLE_TO_RAD) * MEAN_RADIUS_M = px"
    by (simp add: px_def spec_relPosX_def)
  have pye: "(la2 + - la1) * ANGLE_TO_RAD * MEAN_RADIUS_M = py" by (simp add: py_def spec_relPosY_def)
  have two: "(2::real) \<noteq> 0" by simp
  show ?thesis
    unfolding calculateCPA_def
    apply (simp only: p1 p2 prod.case option.case nullish_def isNaN_def ToNumber.simps typeof_number.simps
        jsval.distinct jsnum.distinct js_mul.simps js_sin.simps js_cos.simps js_sub_def js_neg.simps
        js_add.simps js_div.simps Let_def simp_thms if_False if_True two vxe vye pxe pye)
    apply (simp only: js_sqrt.simps nn if_False js_lt.simps flip: spec_norm_def)
    apply (cases "spec_norm vx vy < RELATIVE_VELOCITY_FLOOR")
     apply (simp only: if_True js_mul.simps js_add.simps js_sqrt.simps)
     apply (simp add: spec_norm_def not_less)
    apply (frule nz)
    apply (simp only: if_False js_div.simps js_lt.simps flip: spec_rawTcpa_def)
    apply (cases "spec_rawTcpa px py vx vy < 0")
     apply (simp only: if_True)
    apply (simp only: if_False js_mul.simps js_add.simps js_sqrt.simps)
    apply (simp add: spec_norm_def not_less)
    done
qed

lemma finiteVessel_vesselAt: "finiteVessel (vesselAt la lo c s) la lo c s"
  by (simp add: finiteVessel_def vesselAt_def)

text \<open>
  C1. For every pair of vessels whose course, speed and position are present and finite,
  whose relative speed is at least the floor of 0.01 m/s and whose raw time to the closest
  point of approach is negative, \<open>calculateCPA\<close> returns a result that is diverging,
  with an infinite distance, the time reported as 0 and the relative speed as computed.
\<close>

theorem calculateCPA_diverging:
  assumes "finiteVessel v1 la1 lo1 c1 s1" and "finiteVessel v2 la2 lo2 c2 s2"
    and "RELATIVE_VELOCITY_FLOOR \<le> spec_norm (spec_relVelX s1 c1 s2 c2) (spec_relVelY s1 c1 s2 c2)"
    and "spec_rawTcpa (spec_relPosX la1 lo1 la2 lo2) (spec_relPosY la1 la2)
           (spec_relVelX s1 c1 s2 c2) (spec_relVelY s1 c1 s2 c2) < 0"
  shows "calculateCPA v1 v2 =
           Some \<lparr>cpaDistance = PosInf, tcpaSeconds = Fin 0, diverging = True,
                 relativeSpeed = Fin (spec_norm (spec_relVelX s1 c1 s2 c2) (spec_relVelY s1 c1 s2 c2)),
                 parallelCourse = False\<rparr>"
  using assms(3,4) by (simp add: calculateCPA_finite [OF assms(1,2)] not_less)

theorem calculateCPA_diverging_witness:
  "calculateCPA (vesselAt 60 24 0 5) (vesselAt 59 24 pi 5) =
     Some \<lparr>cpaDistance = PosInf, tcpaSeconds = Fin 0, diverging = True,
           relativeSpeed = Fin 10, parallelCourse = False\<rparr>"
proof -
  have "calculateCPA (vesselAt 60 24 0 5) (vesselAt 59 24 pi 5) =
     Some \<lparr>cpaDistance = PosInf, tcpaSeconds = Fin 0, diverging = True,
           relativeSpeed = Fin (spec_norm (spec_relVelX 5 0 5 pi) (spec_relVelY 5 0 5 pi)),
           parallelCourse = False\<rparr>"
    apply (rule calculateCPA_diverging [OF finiteVessel_vesselAt finiteVessel_vesselAt])
    apply (simp_all add: spec_norm_def spec_relVelX_def spec_relVelY_def spec_rawTcpa_def
      spec_relPosX_def spec_relPosY_def RELATIVE_VELOCITY_FLOOR_def ANGLE_TO_RAD_def MEAN_RADIUS_M_def)
    done
  then show ?thesis
    by (simp add: spec_norm_def spec_relVelX_def spec_relVelY_def)
qed

text \<open>
  C10. In the same-velocity branch the result reports a relative speed of exactly 0 also
  when the relative speed computed from the two velocities is strictly positive (anywhere
  between 0 and the floor), so the reported value is not the computed magnitude.
\<close>

theorem calculateCPA_sameVelocity_relativeSpeed_zero:
  assumes "finiteVessel v1 la1 lo1 c1 s1" and "finiteVessel v2 la2 lo2 c2 s2"
    and "0 < spec_norm (spec_relVelX s1 c1 s2 c2) (spec_relVelY s1 c1 s2 c2)"
    and "spec_norm (spec_relVelX s1 c1 s2 c2) (spec_relVelY s1 c1 s2 c2) < RELATIVE_VELOCITY_FLOOR"
  shows "\<exists>r. calculateCPA v1 v2 = Some r \<and> parallelCourse r \<and> relativeSpeed r = Fin 0 \<and>
             relativeSpeed r \<noteq> Fin (spec_norm (spec_relVelX s1 c1 s2 c2) (spec_relVelY s1 c1 s2 c2))"
  using assms(3,4) by (simp add: calculateCPA_finite [OF assms(1,2)])

theorem calculateCPA_sameVelocity_relativeSpeed_zero_witness:
  "relativeSpeed (the (calculateCPA (vesselAt 60 24 0 5) (vesselAt 60 24 0 (5 + 1 / 200)))) = Fin 0 \<and>
   spec_norm (spec_relVelX 5 0 (5 + 1 / 200) 0) (spec_relVelY 5 0 (5 + 1 / 200) 0) = 1 / 200"
proof -
  have n: "spec_norm (spec_relVelX 5 0 (5 + 1 / 200) 0) (spec_relVelY 5 0 (5 + 1 / 200) 0) = 1 / 200"
    by (simp add: spec_norm_def spec_relVelX_def spec_relVelY_def real_sqrt_divide)
  have "0 < spec_norm (spec_relVelX 5 0 (5 + 1 / 200) 0) (spec_relVelY 5 0 (5 + 1 / 200) 0)"
    and "spec_norm (spec_relVelX 5 0 (5 + 1 / 200) 0) (spec_relVelY 5 0 (5 + 1 / 200) 0) < RELATIVE_VELOCITY_FLOOR"
    unfolding n by (simp_all add: RELATIVE_VELOCITY_FLOOR_def)
  from calculateCPA_sameVelocity_relativeSpeed_zero [OF finiteVessel_vesselAt finiteVessel_vesselAt this]
  obtain r where "calculateCPA (vesselAt 60 24 0 5) (vesselAt 60 24 0 (5 + 1 / 200)) = Some r"
    and "relativeSpeed r = Fin 0"
    by blast
  then have "relativeSpeed (the (calculateCPA (vesselAt 60 24 0 5) (vesselAt 60 24 0 (5 + 1 / 200)))) = Fin 0"
    by simp
  with n show ?thesis by blast
qed

section \<open>Validation of the course\<close>


text \<open>
  C8 (as amended). For every snapshot that carries a course value, \<open>validateVesselUpdate\<close>
  reports a course violation if and only if the course is \<open>NaN\<close> or lies outside the closed
  interval from 0 to \<open>2 * pi\<close>: exactly one violation then, and none for a course inside
  the interval, both ends included.
\<close>

theorem validateVesselUpdate_course:
  assumes "course v = Num c"
  shows "courseViolations v =
           (if c = NaN then [InvalidCourseNaN]
            else if js_le (Fin 0) c \<and> js_le c (Fin (2 * pi)) then []
            else [CourseOutOfRange c])"
  using assms
proof -
  have pre: "filter isCourseViolation (errors (validateVesselUpdate v)) =
      (if isNaN (Num c) then [InvalidCourseNaN]
       else if js_lt c (Fin 0) \<or> js_gt c (Fin (2 * pi)) then [CourseOutOfRange c] else [])"
    by (simp add: validateVesselUpdate_def Let_def isCourseViolation_def assms split: option.splits)
  show ?thesis
    unfolding courseViolations_def pre
    by (cases c) (simp_all add: isNaN_def js_le_def js_gt_def not_less not_le)
qed

theorem validateVesselUpdate_course_witness:
  "courseViolations (vesselAt 60 24 8 5) = [CourseOutOfRange (Fin 8)] \<and>
   courseViolations (vesselAt 60 24 1 5) = []"
proof -
  have "\<not> (8 \<le> 2 * pi)" using pi_less_4 by simp
  moreover have "1 \<le> 2 * pi" using pi_ge_two by simp
  ultimately show ?thesis
    using validateVesselUpdate_course [of "vesselAt 60 24 8 5" "Fin 8"]
      validateVesselUpdate_course [of "vesselAt 60 24 1 5" "Fin 1"]
    by (simp add: vesselAt_def js_le_def)
qed

text \<open>
  C8 as stated fails at the upper end: a course exactly equal to \<open>2 * pi\<close> produces no
  violation (the source tests \<open>course > 2 * Math.PI\<close>).
\<close>

theorem validateVesselUpdate_course_two_pi:
  "validateVesselUpdate (vesselAt 60 24 (2 * pi) 5) = \<lparr>valid = True, errors = []\<rparr>"
  by (simp add: validateVesselUpdate_def vesselAt_def Let_def isNaN_def js_gt_def LAT_BOUND_def LON_BOUND_def)

section \<open>The primary classification\<close>

lemma checkCPACollision_result:
  assumes "calculateCPA selfVessel targetVessel = Some r" and "\<not> diverging r"
  shows "(fst (checkCPACollision opts selfVessel targetVessel s) \<noteq> None) =
           (\<not> js_gt (cpaDistance r) (activeThreshold opts (alarmActive s)) \<and>
            (\<not> js_gt (js_div (tcpaSeconds r) (Fin 60)) (timeWindowMinutes opts) \<or> parallelCourse r))"
  using assms by (auto simp: checkCPACollision_def activeThreshold_def Let_def)

lemma js_le_not_gt: "a \<noteq> NaN \<Longrightarrow> b \<noteq> NaN \<Longrightarrow> js_le a b = (\<not> js_gt a b)"
  by (cases a; cases b) (auto simp: js_le_def js_gt_def)



text \<open>
  The classification of a non-diverging result, as the source tests it: if the distance
  exceeds the active threshold the target is safe; otherwise the target is a threat if
  and only if the time in minutes is not greater than the configured window, or the
  parallel-course flag is set (parallel-course pairs bypass the time window and are
  classified on distance alone). When the time and the window are numbers (not
  \<open>NaN\<close>), not greater than the window is at most the window.
\<close>

lemma checkCPACollision_classification:
  assumes "calculateCPA selfVessel targetVessel = Some r" and "\<not> diverging r"
  shows "(js_gt (cpaDistance r) (activeThreshold opts (alarmActive s)) \<longrightarrow>
            fst (checkCPACollision opts selfVessel targetVessel s) = None) \<and>
         (\<not> js_gt (cpaDistance r) (activeThreshold opts (alarmActive s)) \<and>
          js_div (tcpaSeconds r) (Fin 60) \<noteq> NaN \<and> timeWindowMinutes opts \<noteq> NaN \<longrightarrow>
            (fst (checkCPACollision opts selfVessel targetVessel s) \<noteq> None) =
            (js_le (js_div (tcpaSeconds r) (Fin 60)) (timeWindowMinutes opts) \<or> parallelCourse r)) \<and>
         (\<not> js_gt (cpaDistance r) (activeThreshold opts (alarmActive s)) \<longrightarrow>
            (fst (checkCPACollision opts selfVessel targetVessel s) \<noteq> None) =
            (\<not> js_gt (js_div (tcpaSeconds r) (Fin 60)) (timeWindowMinutes opts) \<or> parallelCourse r))"
  using checkCPACollision_result [OF assms, of opts s]
  by (auto simp: js_le_not_gt)

text \<open>
  For vessels whose course, speed and position are finite numbers the time of the result is
  a number or infinite, never \<open>NaN\<close>, and the classification is the one of the
  specification: safe beyond the threshold, otherwise a threat if and only if the time
  is at most the window or the parallel-course flag is set.
\<close>

lemma checkCPACollision_classification_finite:
  assumes "finiteVessel v1 la1 lo1 c1 s1" and "finiteVessel v2 la2 lo2 c2 s2"
    and "calculateCPA v1 v2 = Some r" and "\<not> diverging r"
    and "timeWindowMinutes opts \<noteq> NaN"
  shows "(js_gt (cpaDistance r) (activeThreshold opts (alarmActive s)) \<longrightarrow>
            fst (checkCPACollision opts v1 v2 s) = None) \<and>
         (\<not> js_gt (cpaDistance r) (activeThreshold opts (alarmActive s)) \<longrightarrow>
            (fst (checkCPACollision opts v1 v2 s) \<noteq> None) =
            (js_le (js_div (tcpaSeconds r) (Fin 60)) (timeWindowMinutes opts) \<or> parallelCourse r))"
proof -
  have "tcpaSeconds r = PosInf \<or> (\<exists>t. tcpaSeconds r = Fin t)"
    using assms(3) unfolding calculateCPA_finite [OF assms(1,2)]
    by (auto split: if_splits)
  then have "js_div (tcpaSeconds r) (Fin 60) \<noteq> NaN" by auto
  then show ?thesis
    using checkCPACollision_result [OF assms(3,4), of opts s] assms(5)
    by (auto simp: js_le_not_gt)
qed

lemma cpa_infinite: "calculateCPA infiniteSpeedVessel (vesselAt 60 24 0 5) =
     Some \<lparr>cpaDistance = NaN, tcpaSeconds = NaN, diverging = False, relativeSpeed = NaN,
           parallelCourse = False\<rparr>"
  by (simp add: calculateCPA_def infiniteSpeedVessel_def vesselAt_def nullish_def isNaN_def Let_def
        js_sub_def sgn_inf_def)

text \<open>
  C3. The classification fails for a vessel that reports an infinite speed. The
  validation accepts it (it rejects only a speed that is \<open>NaN\<close> or negative),
  \<open>calculateCPA\<close> returns a non-diverging, non-parallel result whose distance and time
  are \<open>NaN\<close>, and the pair is classified as a threat although the time is not at most
  the window: both comparisons of the source are false on \<open>NaN\<close>.
\<close>

theorem checkCPACollision_infinite_speed:
  "valid (validateVesselUpdate infiniteSpeedVessel) \<and>
   calculateCPA infiniteSpeedVessel (vesselAt 60 24 0 5) =
     Some \<lparr>cpaDistance = NaN, tcpaSeconds = NaN, diverging = False, relativeSpeed = NaN,
           parallelCourse = False\<rparr> \<and>
   \<not> js_le (js_div NaN (Fin 60)) (timeWindowMinutes defaultOptions) \<and>
   fst (checkCPACollision defaultOptions infiniteSpeedVessel (vesselAt 60 24 0 5)
          (initialState ''vessels.self'' (Fin 0))) \<noteq> None"
proof -
  have v: "valid (validateVesselUpdate infiniteSpeedVessel)"
    using pi_ge_two
    by (simp add: validateVesselUpdate_def infiniteSpeedVessel_def Let_def isNaN_def js_gt_def
        LAT_BOUND_def LON_BOUND_def)
  have c: "fst (checkCPACollision defaultOptions infiniteSpeedVessel (vesselAt 60 24 0 5)
          (initialState ''vessels.self'' (Fin 0))) \<noteq> None"
  proof -
    let ?r = "\<lparr>cpaDistance = NaN, tcpaSeconds = NaN, diverging = False, relativeSpeed = NaN,
           parallelCourse = False\<rparr>"
    let ?s = "initialState ''vessels.self'' (Fin 0)"
    have d: "\<not> diverging ?r" by simp
    have "\<not> js_gt (cpaDistance ?r) (activeThreshold defaultOptions (alarmActive ?s)) \<and>
            (\<not> js_gt (js_div (tcpaSeconds ?r) (Fin 60)) (timeWindowMinutes defaultOptions) \<or>
             parallelCourse ?r)"
      by (simp add: js_gt_def activeThreshold_def defaultOptions_def initialState_def)
    then show ?thesis
      unfolding checkCPACollision_result [OF cpa_infinite d, of defaultOptions ?s, symmetric] .
  qed
  show ?thesis using v c cpa_infinite by (simp add: js_le_def)
qed

theorem checkCPACollision_infinite_speed_witness:
  "tcpaSeconds (the (calculateCPA infiniteSpeedVessel (vesselAt 60 24 0 5))) = NaN \<and>
   (\<exists>c. fst (checkCPACollision defaultOptions infiniteSpeedVessel (vesselAt 60 24 0 5)
               (initialState ''vessels.self'' (Fin 0))) = Some c)"
  using checkCPACollision_infinite_speed by auto

section \<open>The same-velocity distance\<close>

text \<open>
  What the same-velocity branch computes. For every pair of vessels whose course, speed
  and position are present and finite and whose relative speed is below the floor of
  0.01 m/s, \<open>calculateCPA\<close> returns a parallel-course, non-diverging result with an
  infinite time, a reported relative speed of 0 and, as distance, the magnitude of the
  tangent-plane relative position, taken from the difference of the two longitudes as
  they are reported.
\<close>

lemma calculateCPA_sameVelocity:
  assumes "finiteVessel v1 la1 lo1 c1 s1" and "finiteVessel v2 la2 lo2 c2 s2"
    and "spec_norm (spec_relVelX s1 c1 s2 c2) (spec_relVelY s1 c1 s2 c2) < RELATIVE_VELOCITY_FLOOR"
  shows "calculateCPA v1 v2 =
           Some \<lparr>cpaDistance = Fin (spec_norm (spec_relPosX la1 lo1 la2 lo2) (spec_relPosY la1 la2)),
                 tcpaSeconds = PosInf, diverging = False, relativeSpeed = Fin 0,
                 parallelCourse = True\<rparr>"
  using assms(3) by (simp add: calculateCPA_finite [OF assms(1,2)])

lemma spec_norm_zero: "spec_norm x 0 = \<bar>x\<bar>"
  by (simp add: spec_norm_def)

text \<open>
  Along a meridian that distance is the haversine distance between the two positions.
  This is the configuration of the tests 3.2, 3.6 and 4.3 of the source (same longitude,
  latitudes a hundredth of a degree apart), which assert that the two distances agree.
\<close>

lemma atan2_half_angle:
  assumes "\<bar>x\<bar> < pi / 2"
  shows "atan2_real \<bar>sin x\<bar> (cos x) = \<bar>x\<bar>"
proof -
  have c: "0 < cos x" using assms by (intro cos_gt_zero_pi) (auto simp: abs_less_iff)
  have s: "\<bar>sin x\<bar> = sin \<bar>x\<bar>"
  proof (cases "0 \<le> x")
    case True
    then have "0 \<le> sin x" using assms pi_gt_zero by (intro sin_ge_zero) auto
    then show ?thesis using True by simp
  next
    case False
    then have "0 \<le> sin (- x)" using assms pi_gt_zero by (intro sin_ge_zero) auto
    then show ?thesis using False by simp
  qed
  have "\<bar>sin x\<bar> / cos x = tan \<bar>x\<bar>"
    unfolding s tan_def by simp
  moreover have "arctan (tan \<bar>x\<bar>) = \<bar>x\<bar>"
    using assms by (intro arctan_tan) auto
  ultimately show ?thesis using c by (simp add: atan2_real_def)
qed

lemma haversine_meridian:
  assumes "\<bar>la2 - la1\<bar> < 180"
  shows "haversineDistance (Some \<lparr>latitude = Num (Fin la1), longitude = Num (Fin lo)\<rparr>)
           (Some \<lparr>latitude = Num (Fin la2), longitude = Num (Fin lo)\<rparr>) =
         Fin (MEAN_RADIUS_M * \<bar>(la2 - la1) * ANGLE_TO_RAD\<bar>)"
proof -
  define x where "x = (la2 - la1) * ANGLE_TO_RAD / 2"
  have "\<bar>x\<bar> = \<bar>la2 - la1\<bar> * (pi / 360)"
    by (simp add: x_def ANGLE_TO_RAD_def abs_mult)
  also have "\<dots> < 180 * (pi / 360)"
    using assms by (intro mult_strict_right_mono) simp_all
  finally have x: "\<bar>x\<bar> < pi / 2" by simp
  have c: "0 < cos x" using x by (intro cos_gt_zero_pi) (auto simp: abs_less_iff)
  have a: "sqrt (sin x * sin x) = \<bar>sin x\<bar>" by simp
  have "1 - sin x * sin x = cos x * cos x"
    using sin_cos_squared_add [of x] by (simp add: power2_eq_square algebra_simps)
  then have b: "sqrt (1 - sin x * sin x) = cos x" using c by simp
  have n: "\<not> sin x * sin x < 0" by (simp add: not_less)
  have m: "\<not> 1 - sin x * sin x < 0"
    using \<open>1 - sin x * sin x = cos x * cos x\<close> by (simp add: not_less)
  have "haversineDistance (Some \<lparr>latitude = Num (Fin la1), longitude = Num (Fin lo)\<rparr>)
           (Some \<lparr>latitude = Num (Fin la2), longitude = Num (Fin lo)\<rparr>) =
         Fin (MEAN_RADIUS_M * (2 * atan2_real \<bar>sin x\<bar> (cos x)))"
    using n m by (simp add: haversineDistance_def js_sub_def Let_def x_def [symmetric] a b)
  also have "\<dots> = Fin (MEAN_RADIUS_M * \<bar>(la2 - la1) * ANGLE_TO_RAD\<bar>)"
    unfolding atan2_half_angle [OF x] by (simp add: x_def abs_mult)
  finally show ?thesis .
qed


lemma calculateCPA_sameVelocity_meridian:
  assumes "finiteVessel v1 la1 lo c1 s1" and "finiteVessel v2 la2 lo c2 s2"
    and "spec_norm (spec_relVelX s1 c1 s2 c2) (spec_relVelY s1 c1 s2 c2) < RELATIVE_VELOCITY_FLOOR"
    and "\<bar>la2 - la1\<bar> < 180"
  shows "\<exists>r. calculateCPA v1 v2 = Some r \<and>
             cpaDistance r = haversineDistance (position v1) (position v2)"
proof -
  have p: "position v1 = Some \<lparr>latitude = Num (Fin la1), longitude = Num (Fin lo)\<rparr>"
    "position v2 = Some \<lparr>latitude = Num (Fin la2), longitude = Num (Fin lo)\<rparr>"
    using assms(1,2) by (auto simp: finiteVessel_def split: option.splits)
  have "spec_relPosX la1 lo la2 lo = 0" by (simp add: spec_relPosX_def)
  then have "spec_norm (spec_relPosX la1 lo la2 lo) (spec_relPosY la1 la2) = \<bar>spec_relPosY la1 la2\<bar>"
    by (simp add: spec_norm_def)
  also have "\<dots> = MEAN_RADIUS_M * \<bar>(la2 - la1) * ANGLE_TO_RAD\<bar>"
    by (simp add: spec_relPosY_def abs_mult MEAN_RADIUS_M_def)
  finally have "cpaDistance (the (calculateCPA v1 v2)) =
      haversineDistance (position v1) (position v2)"
    using assms(3) unfolding p haversine_meridian [OF assms(4)]
    by (simp add: calculateCPA_sameVelocity [OF assms(1,2,3)])
  then show ?thesis by (simp add: calculateCPA_sameVelocity [OF assms(1,2,3)])
qed

lemma antimeridian_haversine:
  "haversineDistance (position (vesselAt 0 180 0 0)) (position (vesselAt 0 (- 180) 0 0)) = Fin 0"
proof -
  have h: "(- 180 - 180) * (pi / 180) / 2 = - pi" by simp
  show ?thesis
    by (simp add: haversineDistance_def vesselAt_def js_sub_def Let_def ANGLE_TO_RAD_def
        atan2_real_def h)
qed

lemma antimeridian_valid:
  "validateVesselData (Some (vesselAt 0 180 0 0))"
  "validateVesselData (Some (vesselAt 0 (- 180) 0 0))"
  using pi_ge_two
  by (simp_all add: validateVesselData_def validateVesselUpdate_def vesselAt_def Let_def isNaN_def
      js_gt_def LAT_BOUND_def LON_BOUND_def)

text \<open>
  C2. The claim fails across the antimeridian, where the difference of the longitudes is
  not wrapped. Two stationary vessels at the same point of the equator, one reporting
  longitude 180 and the other longitude -180, both pass the validation and their
  haversine distance is 0 (so the range filter, which reads it through
  \<open>calculateDistance\<close>, lets them through). The same-velocity branch reports as their
  distance the whole circumference, \<open>2 * pi\<close> radii, and the primary classification
  finds no threat.
\<close>

theorem calculateCPA_sameVelocity_antimeridian:
  "validateVesselData (Some (vesselAt 0 180 0 0)) \<and>
   validateVesselData (Some (vesselAt 0 (- 180) 0 0)) \<and>
   haversineDistance (position (vesselAt 0 180 0 0)) (position (vesselAt 0 (- 180) 0 0)) = Fin 0 \<and>
   calculateDistance (position (vesselAt 0 180 0 0)) (position (vesselAt 0 (- 180) 0 0)) =
     Some (Fin 0) \<and>
   calculateCPA (vesselAt 0 180 0 0) (vesselAt 0 (- 180) 0 0) =
     Some \<lparr>cpaDistance = Fin (2 * pi * MEAN_RADIUS_M), tcpaSeconds = PosInf,
           diverging = False, relativeSpeed = Fin 0, parallelCourse = True\<rparr> \<and>
   fst (checkCPACollision defaultOptions (vesselAt 0 180 0 0) (vesselAt 0 (- 180) 0 0)
          (initialState ''vessels.self'' (Fin 0))) = None"
proof -
  let ?r = "\<lparr>cpaDistance = Fin (2 * pi * MEAN_RADIUS_M), tcpaSeconds = PosInf,
           diverging = False, relativeSpeed = Fin 0, parallelCourse = True\<rparr>"
  let ?s = "initialState ''vessels.self'' (Fin 0)"
  have n: "spec_norm (spec_relVelX 0 0 0 0) (spec_relVelY 0 0 0 0) < RELATIVE_VELOCITY_FLOOR"
    by (simp add: spec_norm_def spec_relVelX_def spec_relVelY_def RELATIVE_VELOCITY_FLOOR_def)
  have p: "spec_norm (spec_relPosX 0 180 0 (- 180)) (spec_relPosY 0 0) = 2 * pi * MEAN_RADIUS_M"
  proof -
    have x: "spec_relPosX 0 180 0 (- 180) = - (2 * pi * MEAN_RADIUS_M)"
      by (simp add: spec_relPosX_def ANGLE_TO_RAD_def)
    have y: "spec_relPosY 0 0 = 0" by (simp add: spec_relPosY_def)
    have "0 \<le> 2 * pi * MEAN_RADIUS_M" by (simp add: MEAN_RADIUS_M_def)
    then show ?thesis unfolding x y spec_norm_zero by simp
  qed
  have c: "calculateCPA (vesselAt 0 180 0 0) (vesselAt 0 (- 180) 0 0) = Some ?r"
    using calculateCPA_sameVelocity [OF finiteVessel_vesselAt finiteVessel_vesselAt n,
        of 0 180 0 "- 180"]
    unfolding p .
  have d: "calculateDistance (position (vesselAt 0 180 0 0)) (position (vesselAt 0 (- 180) 0 0)) =
      Some (Fin 0)"
    by (simp add: calculateDistance_def antimeridian_haversine) (simp add: vesselAt_def)
  have "500 < 2 * pi * MEAN_RADIUS_M" using pi_ge_two by (simp add: MEAN_RADIUS_M_def)
  then have gt: "js_gt (cpaDistance ?r) (activeThreshold defaultOptions (alarmActive ?s))"
    by (simp add: js_gt_def activeThreshold_def defaultOptions_def initialState_def)
  have nd: "\<not> diverging ?r" by simp
  have safe: "fst (checkCPACollision defaultOptions (vesselAt 0 180 0 0) (vesselAt 0 (- 180) 0 0) ?s) =
      None"
    using checkCPACollision_result [OF c nd, of defaultOptions ?s] gt by simp
  from antimeridian_valid antimeridian_haversine c d safe show ?thesis by simp
qed

theorem calculateCPA_sameVelocity_antimeridian_witness:
  "haversineDistance (position (vesselAt 0 180 0 0)) (position (vesselAt 0 (- 180) 0 0)) = Fin 0 \<and>
   js_gt (cpaDistance (the (calculateCPA (vesselAt 0 180 0 0) (vesselAt 0 (- 180) 0 0))))
     (rangeMeters defaultOptions)"
proof -
  have "18520 < 2 * pi * MEAN_RADIUS_M" using pi_ge_two by (simp add: MEAN_RADIUS_M_def)
  then show ?thesis
    using calculateCPA_sameVelocity_antimeridian by (simp add: js_gt_def defaultOptions_def)
qed

section \<open>Hysteresis\<close>





section \<open>The alarm state machine\<close>

subsection \<open>updateAlarmState\<close>

lemma updateAlarmState_collisions [simp]: "collisions (updateAlarmState b s) = collisions s"
  by (simp add: updateAlarmState_def publishCollisionNotification_def Let_def)

lemma updateAlarmState_previousPositions [simp]:
  "previousPositions (updateAlarmState b s) = previousPositions s"
  by (simp add: updateAlarmState_def publishCollisionNotification_def Let_def)

lemma updateAlarmState_prototypes [simp]:
  "previousPositionsProto (updateAlarmState b s) = previousPositionsProto s"
  "collisionsProto (updateAlarmState b s) = collisionsProto s"
  by (simp_all add: updateAlarmState_def publishCollisionNotification_def Let_def)

lemma updateAlarmState_selfFullContext [simp]:
  "selfFullContext (updateAlarmState b s) = selfFullContext s"
  by (simp add: updateAlarmState_def publishCollisionNotification_def Let_def)

lemma updateAlarmState_callCount [simp]:
  "callCount (updateAlarmState b s) = callCount s"
  by (simp add: updateAlarmState_def publishCollisionNotification_def Let_def)

lemma updateAlarmState_alarmActive [simp]: "alarmActive (updateAlarmState b s) = b"
  by (auto simp: updateAlarmState_def publishCollisionNotification_def Let_def)

lemma updateAlarmState_published:
  "published (updateAlarmState b s) =
     published s @
       (if b \<and> \<not> alarmActive s then [AlarmNotification (collisions s)]
        else if \<not> b \<and> alarmActive s then [NormalNotification] else [])"
  by (simp add: updateAlarmState_def publishCollisionNotification_def Let_def)

lemma updateAlarmState_same: "alarmActive s = b \<Longrightarrow> updateAlarmState b s = s"
  by (auto simp: updateAlarmState_def)

lemma hasCollisions_updateAlarmState [simp]:
  "hasCollisions (updateAlarmState b s) = hasCollisions s"
  by (simp add: hasCollisions_def)

lemma alarmInvariant_update: "alarmInvariant (updateAlarmState (hasCollisions s) s)"
  by (simp add: alarmInvariant_def)

subsection \<open>The cleanup loops\<close>

lemma cleanupPositionsLoop_fst:
  "fst (cleanupPositionsLoop now maxAge ks (m, c)) =
     fmfilter (\<lambda>k. \<not> (k \<in> set ks \<and>
                        (case fmlookup m k of None \<Rightarrow> False
                         | Some d \<Rightarrow> stalePosition now maxAge d))) m"
proof (induction ks arbitrary: m c)
  case Nil
  then show ?case by simp
next
  case (Cons k ks)
  show ?case
  proof (cases "fmlookup m k")
    case None
    then show ?thesis
      by (auto simp: Cons.IH intro!: fmap_ext split: option.splits)
  next
    case (Some d)
    show ?thesis
    proof (cases "stalePosition now maxAge d")
      case True
      then show ?thesis using Some
        by (auto simp: Cons.IH stalePosition_def intro!: fmap_ext split: option.splits)
    next
      case False
      then show ?thesis using Some
        by (auto simp: Cons.IH stalePosition_def intro!: fmap_ext split: option.splits)
    qed
  qed
qed

lemma cleanupStalePositions_previousPositions:
  "previousPositions (cleanupStalePositions opts now s) =
     fmfilter (\<lambda>k. case fmlookup (previousPositions s) k of None \<Rightarrow> False
                   | Some d \<Rightarrow> \<not> stalePosition now
                                   (js_mul (js_mul (PosFreshBefore opts) (Fin 1000)) (Fin 2)) d)
       (previousPositions s)"
proof -
  let ?maxAge = "js_mul (js_mul (PosFreshBefore opts) (Fin 1000)) (Fin 2)"
  let ?ks = "sorted_list_of_fset (fmdom (previousPositions s))"
  obtain m c where mc: "cleanupPositionsLoop now ?maxAge ?ks (previousPositions s, 0) = (m, c)"
    by (cases "cleanupPositionsLoop now ?maxAge ?ks (previousPositions s, 0)")
  have "m = fst (cleanupPositionsLoop now ?maxAge ?ks (previousPositions s, 0))"
    by (simp add: mc)
  also have "\<dots> = fmfilter (\<lambda>k. \<not> (k \<in> set ?ks \<and>
                        (case fmlookup (previousPositions s) k of None \<Rightarrow> False
                         | Some d \<Rightarrow> stalePosition now ?maxAge d))) (previousPositions s)"
    by (rule cleanupPositionsLoop_fst)
  also have "\<dots> = fmfilter (\<lambda>k. case fmlookup (previousPositions s) k of None \<Rightarrow> False
                   | Some d \<Rightarrow> \<not> stalePosition now ?maxAge d) (previousPositions s)"
    by (rule fmap_ext) (auto split: option.splits)
  finally have "m = fmfilter (\<lambda>k. case fmlookup (previousPositions s) k of None \<Rightarrow> False
                   | Some d \<Rightarrow> \<not> stalePosition now ?maxAge d) (previousPositions s)" .
  then show ?thesis
    by (simp add: cleanupStalePositions_def Let_def mc)
qed

lemma cleanupStalePositions_frame [simp]:
  "collisions (cleanupStalePositions opts now s) = collisions s"
  "alarmActive (cleanupStalePositions opts now s) = alarmActive s"
  "published (cleanupStalePositions opts now s) = published s"
  "selfFullContext (cleanupStalePositions opts now s) = selfFullContext s"
  "callCount (cleanupStalePositions opts now s) = callCount s"
  "previousPositionsProto (cleanupStalePositions opts now s) = previousPositionsProto s"
  "collisionsProto (cleanupStalePositions opts now s) = collisionsProto s"
  by (simp_all add: cleanupStalePositions_def Let_def split: prod.splits)

lemma cleanupCollisionsLoop_Cons:
  "cleanupCollisionsLoop opts g now (k # ks) (m, c) =
     (if staleCollision opts g now k
      then cleanupCollisionsLoop opts g now ks (fmdrop k m, c + 1)
      else cleanupCollisionsLoop opts g now ks (m, c))"
  by (simp add: staleCollision_def Let_def)

lemma cleanupCollisionsLoop_fst:
  "fst (cleanupCollisionsLoop opts g now ks (m, c)) =
     fmfilter (\<lambda>k. \<not> (k \<in> set ks \<and> staleCollision opts g now k)) m"
proof (induction ks arbitrary: m c)
  case Nil
  then show ?case by simp
next
  case (Cons k ks)
  show ?case
    unfolding cleanupCollisionsLoop_Cons
    by (cases "staleCollision opts g now k") (auto simp: Cons.IH intro!: fmap_ext)
qed

lemma cleanupCollisionsLoop_snd:
  "c \<le> snd (cleanupCollisionsLoop opts g now ks (m, c)) \<and>
   (snd (cleanupCollisionsLoop opts g now ks (m, c)) = c \<longrightarrow>
      fst (cleanupCollisionsLoop opts g now ks (m, c)) = m)"
proof (induction ks arbitrary: m c)
  case Nil
  then show ?case by simp
next
  case (Cons k ks)
  show ?case
  proof (cases "staleCollision opts g now k")
    case True
    then have eq: "cleanupCollisionsLoop opts g now (k # ks) (m, c) =
        cleanupCollisionsLoop opts g now ks (fmdrop k m, c + 1)"
      by (simp only: cleanupCollisionsLoop_Cons if_True)
    from Cons.IH [of "c + 1" "fmdrop k m"] show ?thesis unfolding eq by auto
  next
    case False
    then have eq: "cleanupCollisionsLoop opts g now (k # ks) (m, c) =
        cleanupCollisionsLoop opts g now ks (m, c)"
      by (simp only: cleanupCollisionsLoop_Cons if_False)
    from Cons.IH [of c m] show ?thesis unfolding eq by auto
  qed
qed

lemma cleanupStaleCollisions_collisions:
  "collisions (cleanupStaleCollisions opts g now s) =
     fmfilter (\<lambda>k. \<not> staleCollision opts g now k) (collisions s)"
proof -
  let ?ks = "sorted_list_of_fset (fmdom (collisions s))"
  obtain m c where mc: "cleanupCollisionsLoop opts g now ?ks (collisions s, 0) = (m, c)"
    by (cases "cleanupCollisionsLoop opts g now ?ks (collisions s, 0)")
  have "m = fst (cleanupCollisionsLoop opts g now ?ks (collisions s, 0))" by (simp add: mc)
  also have "\<dots> = fmfilter (\<lambda>k. \<not> (k \<in> set ?ks \<and> staleCollision opts g now k)) (collisions s)"
    by (rule cleanupCollisionsLoop_fst)
  also have "\<dots> = fmfilter (\<lambda>k. \<not> staleCollision opts g now k) (collisions s)"
    by (rule fmap_ext) (auto simp: fmdom_notD)
  finally show ?thesis
    by (simp add: cleanupStaleCollisions_def Let_def mc)
qed

lemma cleanupStaleCollisions_frame [simp]:
  "previousPositions (cleanupStaleCollisions opts g now s) = previousPositions s"
  "selfFullContext (cleanupStaleCollisions opts g now s) = selfFullContext s"
  "callCount (cleanupStaleCollisions opts g now s) = callCount s"
  "previousPositionsProto (cleanupStaleCollisions opts g now s) = previousPositionsProto s"
  "collisionsProto (cleanupStaleCollisions opts g now s) = collisionsProto s"
  by (simp_all add: cleanupStaleCollisions_def Let_def split: prod.splits)

lemma cleanupStaleCollisions_invariant:
  assumes "alarmInvariant s"
  shows "alarmInvariant (cleanupStaleCollisions opts g now s)"
proof -
  let ?ks = "sorted_list_of_fset (fmdom (collisions s))"
  obtain m c where mc: "cleanupCollisionsLoop opts g now ?ks (collisions s, 0) = (m, c)"
    by (cases "cleanupCollisionsLoop opts g now ?ks (collisions s, 0)")
  show ?thesis
  proof (cases "0 < c")
    case True
    then show ?thesis
      by (simp add: cleanupStaleCollisions_def Let_def mc alarmInvariant_update)
  next
    case False
    then have "c = 0" by simp
    with cleanupCollisionsLoop_snd [of 0 opts g now ?ks "collisions s"] mc
    have "m = collisions s" by simp
    with \<open>c = 0\<close> assms show ?thesis
      by (simp add: cleanupStaleCollisions_def Let_def mc)
  qed
qed

subsection \<open>Reads and writes of the plain objects\<close>

lemma getMember_own:
  "fmlookup own key = Some r \<Longrightarrow> getMember property own proto key = Entry r"
  by (simp add: getMember_def)

lemma getMember_falsy:
  "\<not> truthy (getMember property own proto key) \<Longrightarrow> fmlookup own key = None"
  by (cases "fmlookup own key") (simp_all add: getMember_def)

lemma getMember_ownName:
  "\<not> inheritedName key \<Longrightarrow>
     getMember property own None key = (case fmlookup own key of None \<Rightarrow> Missing | Some r \<Rightarrow> Entry r)"
  by (simp add: getMember_def inheritedName_def split: option.splits)

lemma setMember_ownName:
  "key \<noteq> ''__proto__'' \<Longrightarrow> setMember key r own proto = (fmupd key r own, proto)"
  by (simp add: setMember_def)

lemma setCollision_frame [simp]:
  "previousPositions (setCollision vid e s) = previousPositions s"
  "previousPositionsProto (setCollision vid e s) = previousPositionsProto s"
  "alarmActive (setCollision vid e s) = alarmActive s"
  "published (setCollision vid e s) = published s"
  "selfFullContext (setCollision vid e s) = selfFullContext s"
  "callCount (setCollision vid e s) = callCount s"
  "stats (setCollision vid e s) = stats s"
  by (simp_all add: setCollision_def setMember_def)

lemma setPreviousPosition_frame [simp]:
  "collisions (setPreviousPosition vid d s) = collisions s"
  "collisionsProto (setPreviousPosition vid d s) = collisionsProto s"
  "alarmActive (setPreviousPosition vid d s) = alarmActive s"
  "published (setPreviousPosition vid d s) = published s"
  "selfFullContext (setPreviousPosition vid d s) = selfFullContext s"
  "callCount (setPreviousPosition vid d s) = callCount s"
  "stats (setPreviousPosition vid d s) = stats s"
  by (simp_all add: setPreviousPosition_def setMember_def)

lemma setPreviousPosition_ownName:
  "vid \<noteq> ''__proto__'' \<Longrightarrow>
     setPreviousPosition vid d s = s\<lparr>previousPositions := fmupd vid d (previousPositions s)\<rparr>"
  by (simp add: setPreviousPosition_def setMember_def)

subsection \<open>Frame properties\<close>

lemma fmdrop_absent: "fmlookup m k = None \<Longrightarrow> fmdrop k m = m"
  by (rule fmap_ext) auto

lemma removeCollision_collisions: "collisions (removeCollision vid s) = fmdrop vid (collisions s)"
  using getMember_falsy [of entryProperty "collisions s" "collisionsProto s" vid]
  by (auto simp: removeCollision_def getCollision_def Let_def fmdrop_absent)

lemma removeCollision_frame [simp]:
  "previousPositions (removeCollision vid s) = previousPositions s"
  "previousPositionsProto (removeCollision vid s) = previousPositionsProto s"
  "collisionsProto (removeCollision vid s) = collisionsProto s"
  "selfFullContext (removeCollision vid s) = selfFullContext s"
  "callCount (removeCollision vid s) = callCount s"
  by (simp_all add: removeCollision_def Let_def)

lemma removeCollision_invariant:
  "alarmInvariant s \<Longrightarrow> alarmInvariant (removeCollision vid s)"
  by (simp add: removeCollision_def Let_def alarmInvariant_update)

lemma alarmInvariant_stats [simp]: "alarmInvariant (s\<lparr>stats := st\<rparr>) = alarmInvariant s"
  by (simp add: alarmInvariant_def hasCollisions_def)

lemma alarmInvariant_callCount [simp]: "alarmInvariant (s\<lparr>callCount := n\<rparr>) = alarmInvariant s"
  by (simp add: alarmInvariant_def hasCollisions_def)

lemma alarmInvariant_previousPositions [simp]:
  "alarmInvariant (s\<lparr>previousPositions := p\<rparr>) = alarmInvariant s"
  by (simp add: alarmInvariant_def hasCollisions_def)

lemma cleanupStalePositions_invariant [simp]:
  "alarmInvariant (cleanupStalePositions opts now s) = alarmInvariant s"
  by (simp add: alarmInvariant_def hasCollisions_def)

lemma checkPositionJump_frame [simp]:
  "collisions (snd (checkPositionJump opts now vid cur s)) = collisions s"
  "alarmActive (snd (checkPositionJump opts now vid cur s)) = alarmActive s"
  "published (snd (checkPositionJump opts now vid cur s)) = published s"
  "selfFullContext (snd (checkPositionJump opts now vid cur s)) = selfFullContext s"
  "callCount (snd (checkPositionJump opts now vid cur s)) = callCount s"
  by (simp_all add: checkPositionJump_def Let_def split: option.splits)

lemma checkPositionJump_invariant [simp]:
  "alarmInvariant (snd (checkPositionJump opts now vid cur s)) = alarmInvariant s"
  by (simp add: alarmInvariant_def hasCollisions_def)

lemma checkCPACollision_snd:
  "snd (checkCPACollision opts sv tv s) =
     s\<lparr>stats := (stats s)\<lparr>cpaCalculations := cpaCalculations (stats s) + 1\<rparr>\<rparr>"
  by (simp add: checkCPACollision_def Let_def split: option.splits)

lemma checkGeometricCollision_snd:
  "\<exists>st. snd (checkGeometricCollision opts sv tv s) = s\<lparr>stats := st\<rparr>"
proof -
  have a: "s = s\<lparr>stats := stats s\<rparr>" by simp
  show ?thesis
    by (auto simp: checkGeometricCollision_def Let_def split: option.splits intro: exI [of _ "stats s"])
qed

lemma periodicCleanup_invariant:
  "alarmInvariant s \<Longrightarrow> alarmInvariant (periodicCleanup opts g now s)"
  by (simp add: periodicCleanup_def cleanupStaleCollisions_invariant)

lemma periodicCleanup_frame [simp]:
  "selfFullContext (periodicCleanup opts g now s) = selfFullContext s"
  "callCount (periodicCleanup opts g now s) = callCount s"
  "previousPositionsProto (periodicCleanup opts g now s) = previousPositionsProto s"
  "collisionsProto (periodicCleanup opts g now s) = collisionsProto s"
  by (simp_all add: periodicCleanup_def)

lemma periodicCleanup_idle:
  "callCount s mod CLEANUP_FREQUENCY \<noteq> 0 \<Longrightarrow> periodicCleanup opts g now s = s"
  by (simp add: periodicCleanup_def)

subsection \<open>The evaluation in stages\<close>

lemma checkCollisionForVessel_staged:
  "checkCollisionForVessel opts g now ctx s =
     (if \<not> validContext ctx then (InvalidContext, s)
      else
        let vid = lastSegment ctx;
            s2 = periodicCleanup opts g now (countCall s)
        in case g (selfFullContext s2) of
             None \<Rightarrow> (SelfUnavailable, s2)
           | Some selfVessel \<Rightarrow>
               if \<not> isDataFresh opts now (Some selfVessel) then (SelfStale, s2)
               else if \<not> validateVesselData (Some selfVessel) then (SelfInvalid, s2)
               else
                 (case g ctx of
                    None \<Rightarrow> (TargetUnavailable, removeCollision vid s2)
                  | Some targetVessel \<Rightarrow>
                      if \<not> isDataFresh opts now (Some targetVessel)
                      then (TargetStale, removeCollision vid (countStale s2))
                      else if \<not> validateVesselData (Some targetVessel)
                           then (TargetInvalid, removeCollision vid s2)
                           else evaluateTarget opts now vid selfVessel targetVessel s2))"
proof (cases "ctx = [] \<or> CHR ''.'' \<notin> set ctx")
  case True
  then show ?thesis
    by (simp only: checkCollisionForVessel_def validContext_def if_True simp_thms)
next
  case c1: False
  show ?thesis
  proof (cases "lastSegment ctx = [] \<or> lastSegment ctx = ''vessels''")
    case True
    then show ?thesis
      using c1 by (simp only: checkCollisionForVessel_def validContext_def Let_def if_True if_False simp_thms)
  next
    case c2: False
    show ?thesis
      unfolding checkCollisionForVessel_def validContext_def countCall_def countOutOfRange_def
        countStale_def classifyAndStore_def evaluateTarget_def
      using c1 c2 by (simp only: Let_def if_False simp_thms)
  qed
qed

lemma alarmInvariant_count [simp]:
  "alarmInvariant (countCall s) = alarmInvariant s"
  "alarmInvariant (countStale s) = alarmInvariant s"
  "alarmInvariant (countOutOfRange s) = alarmInvariant s"
  by (simp_all add: countCall_def countStale_def countOutOfRange_def)

lemma classifyAndStore_snd:
  "\<exists>s6. snd (classifyAndStore opts vid sv tv s3) = updateAlarmState (hasCollisions s6) s6 \<and>
        previousPositions s6 = previousPositions s3 \<and>
        previousPositionsProto s6 = previousPositionsProto s3"
proof -
  obtain c1 s4 where a: "checkCPACollision opts sv tv s3 = (c1, s4)"
    by (cases "checkCPACollision opts sv tv s3")
  have s4: "s4 = s3\<lparr>stats := (stats s3)\<lparr>cpaCalculations := cpaCalculations (stats s3) + 1\<rparr>\<rparr>"
    using checkCPACollision_snd [of opts sv tv s3] a by simp
  obtain c2 s5 where b: "(case c1 of None \<Rightarrow> checkGeometricCollision opts (Some sv) tv s4
                          | Some c \<Rightarrow> (Some c, s4)) = (c2, s5)"
    by (cases "case c1 of None \<Rightarrow> checkGeometricCollision opts (Some sv) tv s4 | Some c \<Rightarrow> (Some c, s4)")
  have "\<exists>st. s5 = s4\<lparr>stats := st\<rparr>"
  proof (cases c1)
    case None
    with b checkGeometricCollision_snd [of opts "Some sv" tv s4] show ?thesis by auto
  next
    case (Some c)
    with b have "s5 = s4" by simp
    then have "s5 = s4\<lparr>stats := stats s4\<rparr>" by simp
    then show ?thesis by blast
  qed
  then have p5: "previousPositions s5 = previousPositions s3"
    "previousPositionsProto s5 = previousPositionsProto s3"
    using s4 by auto
  show ?thesis
    using p5 by (cases c2) (auto simp: classifyAndStore_def a b Let_def intro!: exI)
qed

lemma classifyAndStore_invariant: "alarmInvariant (snd (classifyAndStore opts vid sv tv s3))"
  using classifyAndStore_snd [of opts vid sv tv s3] by (auto simp: alarmInvariant_update)

lemma classifyAndStore_previousPositions [simp]:
  "previousPositions (snd (classifyAndStore opts vid sv tv s3)) = previousPositions s3"
  "previousPositionsProto (snd (classifyAndStore opts vid sv tv s3)) = previousPositionsProto s3"
  using classifyAndStore_snd [of opts vid sv tv s3] by auto

lemma classifyAndStore_fst: "fst (classifyAndStore opts vid sv tv s3) \<noteq> PositionJumped"
  by (simp add: classifyAndStore_def Let_def split: prod.splits)

lemma evaluateTarget_invariant:
  assumes "alarmInvariant s2"
  shows "alarmInvariant (snd (evaluateTarget opts now vid sv tv s2))"
proof -
  obtain j s3 where a: "checkPositionJump opts now vid (Some tv) s2 = (j, s3)"
    by (cases "checkPositionJump opts now vid (Some tv) s2")
  have "alarmInvariant s3"
    using checkPositionJump_invariant [of opts now vid "Some tv" s2] a assms by simp
  then show ?thesis
    by (simp add: evaluateTarget_def a Let_def removeCollision_invariant classifyAndStore_invariant
        split: option.splits)
qed

lemma checkCollisionForVessel_invariant:
  assumes "alarmInvariant s"
  shows "alarmInvariant (snd (checkCollisionForVessel opts g now ctx s))"
proof -
  have "alarmInvariant (periodicCleanup opts g now (countCall s))"
    using assms by (simp add: periodicCleanup_invariant)
  then show ?thesis
    using assms
    by (simp add: checkCollisionForVessel_staged Let_def removeCollision_invariant
        evaluateTarget_invariant split: option.splits)
qed

lemma fmdom_fempty_iff: "(fmdom m = {||}) = (m = fmempty)"
proof
  assume a: "fmdom m = {||}"
  show "m = fmempty"
  proof (rule fmap_ext)
    fix x
    have "x |\<notin>| fmdom m" using a by simp
    then show "fmlookup m x = fmlookup fmempty x" by (simp add: fmdom_notD)
  qed
qed simp

lemma hasCollisions_iff: "hasCollisions s = (collisions s \<noteq> fmempty)"
  by (simp add: hasCollisions_def fmdom_fempty_iff [symmetric] zero_less_iff_neq_zero)

lemma threatSetUpdate_step:
  assumes "alarmInvariant s"
  shows "alarmInvariant (threatSetUpdate c s)"
    and "collisions (threatSetUpdate c s) = c"
    and "published (threatSetUpdate c s) =
           published s @
             (if \<not> hasCollisions s \<and> c \<noteq> fmempty then [AlarmNotification c]
              else if hasCollisions s \<and> c = fmempty then [NormalNotification] else [])"
  using assms
  by (simp_all add: threatSetUpdate_def Let_def alarmInvariant_update updateAlarmState_published
      hasCollisions_iff alarmInvariant_def)

text \<open>
  C5. Started in a state where the alarm is active exactly when the threat set is not
  empty, a sequence of alarm-state updates emits exactly one activation notification at
  each update where the threat set goes from empty to non-empty, exactly one clearing
  notification at each update where it goes from non-empty to empty, and nothing at an
  update that leaves non-emptiness unchanged; after the updates the alarm is active
  exactly when the threat set is not empty. The same invariant holds after every
  evaluation \<open>checkCollisionForVessel\<close>.
\<close>

theorem alarm_state_machine:
  assumes "alarmActive s = hasCollisions s"
  shows "alarmActive (runThreatSets cs s) = hasCollisions (runThreatSets cs s) \<and>
         published (runThreatSets cs s) = published s @ spec_alarmEvents (hasCollisions s) cs \<and>
         alarmActive (snd (checkCollisionForVessel opts g now ctx s)) =
           hasCollisions (snd (checkCollisionForVessel opts g now ctx s))"
proof -
  have run: "alarmInvariant s \<Longrightarrow>
      alarmInvariant (runThreatSets cs s) \<and>
      published (runThreatSets cs s) = published s @ spec_alarmEvents (hasCollisions s) cs" for s
  proof (induction cs arbitrary: s)
    case Nil
    then show ?case by simp
  next
    case (Cons c cs)
    note step = threatSetUpdate_step [OF Cons.prems, of c]
    have h: "hasCollisions (threatSetUpdate c s) = (c \<noteq> fmempty)"
      by (simp add: hasCollisions_iff step(2))
    from Cons.IH [OF step(1)] show ?case
      by (simp add: step(3) h)
  qed
  have inv: "alarmInvariant s" using assms by (simp add: alarmInvariant_def)
  from run [OF inv] checkCollisionForVessel_invariant [OF inv, of opts g now ctx]
  show ?thesis by (simp add: alarmInvariant_def)
qed

theorem alarm_state_machine_witness:
  "published (runThreatSets
      [fmempty, fmupd ''X'' exampleThreat fmempty, fmupd ''X'' exampleThreat fmempty, fmempty, fmempty]
      (initialState ''vessels.self'' (Fin 0))) =
     [AlarmNotification (fmupd ''X'' exampleThreat fmempty), NormalNotification] \<and>
   \<not> alarmActive (runThreatSets
      [fmempty, fmupd ''X'' exampleThreat fmempty, fmupd ''X'' exampleThreat fmempty, fmempty, fmempty]
      (initialState ''vessels.self'' (Fin 0)))"
proof -
  let ?s = "initialState ''vessels.self'' (Fin 0)"
  let ?cs = "[fmempty, fmupd ''X'' exampleThreat fmempty, fmupd ''X'' exampleThreat fmempty, fmempty, fmempty]"
  have a: "alarmActive ?s = hasCollisions ?s"
    by (simp add: initialState_def hasCollisions_def)
  have h: "\<not> hasCollisions ?s" by (simp add: initialState_def hasCollisions_def)
  have p: "published ?s = []" by (simp add: initialState_def)
  have c: "collisions (runThreatSets ?cs ?s) = fmempty"
    by (simp add: threatSetUpdate_def Let_def)
  from alarm_state_machine [OF a, of ?cs] h p c show ?thesis
    by (simp add: hasCollisions_iff)
qed

section \<open>The freshness gate\<close>

lemma countCall_frame [simp]:
  "collisions (countCall s) = collisions s"
  "alarmActive (countCall s) = alarmActive s"
  "published (countCall s) = published s"
  "previousPositions (countCall s) = previousPositions s"
  "selfFullContext (countCall s) = selfFullContext s"
  "callCount (countCall s) = callCount s + 1"
  "previousPositionsProto (countCall s) = previousPositionsProto s"
  "collisionsProto (countCall s) = collisionsProto s"
  by (simp_all add: countCall_def)

lemma countStale_frame [simp]:
  "collisions (countStale s) = collisions s"
  "alarmActive (countStale s) = alarmActive s"
  "published (countStale s) = published s"
  "previousPositions (countStale s) = previousPositions s"
  "previousPositionsProto (countStale s) = previousPositionsProto s"
  "collisionsProto (countStale s) = collisionsProto s"
  by (simp_all add: countStale_def)

lemma countOutOfRange_frame [simp]:
  "collisions (countOutOfRange s) = collisions s"
  "alarmActive (countOutOfRange s) = alarmActive s"
  "published (countOutOfRange s) = published s"
  "previousPositions (countOutOfRange s) = previousPositions s"
  "previousPositionsProto (countOutOfRange s) = previousPositionsProto s"
  "collisionsProto (countOutOfRange s) = collisionsProto s"
  by (simp_all add: countOutOfRange_def)

lemma periodicCleanup_countCall_idle:
  "(callCount s + 1) mod CLEANUP_FREQUENCY \<noteq> 0 \<Longrightarrow>
     periodicCleanup opts g now (countCall s) = countCall s"
  by (rule periodicCleanup_idle) simp

text \<open>
  C6 (as amended). In an evaluation with a well-formed context the freshness gate is
  applied to the own vessel's snapshot first and, only when that snapshot is fresh and
  valid, to the target's. When the own snapshot fails the check the evaluation ends at
  once and changes nothing but the counters and what the periodic sweep does: outside a
  sweep the threat set and the alarm are as before, so the target's threat record is kept.
  When the target's snapshot fails the check the evaluation ends with the stale outcome
  and the target's threat record is cleared.
\<close>

theorem freshness_gate:
  assumes "validContext ctx" and "g (selfFullContext s) = Some sv"
  shows "(\<not> isDataFresh opts now (Some sv) \<longrightarrow>
            checkCollisionForVessel opts g now ctx s =
              (SelfStale, periodicCleanup opts g now (countCall s)) \<and>
            ((callCount s + 1) mod CLEANUP_FREQUENCY \<noteq> 0 \<longrightarrow>
               collisions (snd (checkCollisionForVessel opts g now ctx s)) = collisions s \<and>
               alarmActive (snd (checkCollisionForVessel opts g now ctx s)) = alarmActive s)) \<and>
         (isDataFresh opts now (Some sv) \<and> validateVesselData (Some sv) \<and>
          (\<exists>tv. g ctx = Some tv \<and> \<not> isDataFresh opts now (Some tv)) \<longrightarrow>
            checkCollisionForVessel opts g now ctx s =
              (TargetStale,
               removeCollision (lastSegment ctx) (countStale (periodicCleanup opts g now (countCall s)))) \<and>
            fmlookup (collisions (snd (checkCollisionForVessel opts g now ctx s))) (lastSegment ctx) = None)"
proof -
  have self: "g (selfFullContext (periodicCleanup opts g now (countCall s))) = Some sv"
    using assms(2) by simp
  have a: "checkCollisionForVessel opts g now ctx s =
              (SelfStale, periodicCleanup opts g now (countCall s))"
    if "\<not> isDataFresh opts now (Some sv)"
    using that assms(1) self by (simp add: checkCollisionForVessel_staged Let_def)
  have b: "checkCollisionForVessel opts g now ctx s =
              (TargetStale,
               removeCollision (lastSegment ctx) (countStale (periodicCleanup opts g now (countCall s))))"
    if "isDataFresh opts now (Some sv)" "validateVesselData (Some sv)" "g ctx = Some tv"
      "\<not> isDataFresh opts now (Some tv)" for tv
    using that assms(1) self by (simp add: checkCollisionForVessel_staged Let_def)
  show ?thesis
    using a b by (auto simp: periodicCleanup_countCall_idle removeCollision_collisions)
qed

lemma validContext_vessels_X: "validContext ''vessels.X''"
  by (simp add: validContext_def lastSegment_def)

lemma lastSegment_vessels_X: "lastSegment ''vessels.X'' = ''X''"
  by (simp add: lastSegment_def)

lemma stale_vesselAt: "\<not> isDataFresh defaultOptions (Fin 10000000) (Some (vesselAt 60 24 0 5))"
  by (simp add: isDataFresh_def vesselAt_def falsy_def js_sub_def js_ge_def js_le_def
      defaultOptions_def Let_def)

text \<open>
  C6 as stated fails when the own vessel's snapshot is the stale one: the evaluation
  returns before it looks at the target, and the target's threat record stays (here both
  snapshots are stale and X remains a threat).
\<close>

theorem freshness_gate_self_stale_keeps_threat:
  "\<not> isDataFresh defaultOptions (Fin 10000000) (staleStore ''vessels.self'') \<and>
   \<not> isDataFresh defaultOptions (Fin 10000000) (staleStore ''vessels.X'') \<and>
   fmlookup (collisions threatState) ''X'' = Some exampleThreat \<and>
   fst (checkCollisionForVessel defaultOptions staleStore (Fin 10000000) ''vessels.X'' threatState) =
     SelfStale \<and>
   fmlookup (collisions (snd (checkCollisionForVessel defaultOptions staleStore (Fin 10000000)
                                 ''vessels.X'' threatState))) ''X'' = Some exampleThreat"
proof -
  have s: "staleStore ''vessels.self'' = Some (vesselAt 60 24 0 5)"
    "staleStore ''vessels.X'' = Some (vesselAt 60 24 0 5)"
    by (simp_all add: staleStore_def)
  have c: "selfFullContext threatState = ''vessels.self''" "callCount threatState = 0"
    "collisions threatState = fmupd ''X'' exampleThreat fmempty"
    by (simp_all add: threatState_def initialState_def)
  have idle: "periodicCleanup defaultOptions staleStore (Fin 10000000) (countCall threatState) =
      countCall threatState"
    by (rule periodicCleanup_countCall_idle) (simp add: c CLEANUP_FREQUENCY_def)
  have r: "checkCollisionForVessel defaultOptions staleStore (Fin 10000000) ''vessels.X'' threatState =
      (SelfStale, countCall threatState)"
    using stale_vesselAt
    by (simp add: checkCollisionForVessel_staged validContext_vessels_X Let_def idle c s)
  show ?thesis
    using stale_vesselAt by (simp add: r s c)
qed

theorem freshness_gate_witness:
  "fst (checkCollisionForVessel defaultOptions freshSelfStore (Fin 10000000) ''vessels.X'' threatState) =
     TargetStale \<and>
   fmlookup (collisions threatState) ''X'' = Some exampleThreat \<and>
   fmlookup (collisions (snd (checkCollisionForVessel defaultOptions freshSelfStore (Fin 10000000)
                                 ''vessels.X'' threatState))) ''X'' = None"
proof -
  let ?sv = "(vesselAt 60 24 0 5)\<lparr>timestamp := Fin 10000000\<rparr>"
  have c: "selfFullContext threatState = ''vessels.self''"
    "collisions threatState = fmupd ''X'' exampleThreat fmempty"
    by (simp_all add: threatState_def initialState_def)
  have g: "freshSelfStore (selfFullContext threatState) = Some ?sv"
    by (simp add: c freshSelfStore_def)
  have t: "freshSelfStore ''vessels.X'' = Some (vesselAt 60 24 0 5)"
    by (simp add: freshSelfStore_def)
  have f: "isDataFresh defaultOptions (Fin 10000000) (Some ?sv)"
    by (simp add: isDataFresh_def vesselAt_def falsy_def js_sub_def js_ge_def js_le_def
        defaultOptions_def Let_def)
  have v: "validateVesselData (Some ?sv)"
    using pi_ge_two
    by (simp add: validateVesselData_def validateVesselUpdate_def vesselAt_def Let_def isNaN_def
        js_gt_def LAT_BOUND_def LON_BOUND_def)
  have e: "\<exists>tv. freshSelfStore ''vessels.X'' = Some tv \<and>
                \<not> isDataFresh defaultOptions (Fin 10000000) (Some tv)"
    using t stale_vesselAt by simp
  from freshness_gate [of "''vessels.X''" freshSelfStore threatState ?sv defaultOptions "Fin 10000000",
      OF validContext_vessels_X g] f v e
  show ?thesis by (simp add: c lastSegment_vessels_X removeCollision_collisions)
qed

section \<open>The position-jump gate\<close>

lemma evaluateTarget_jumped:
  assumes "fst (evaluateTarget opts now vid sv tv s2) = PositionJumped"
  shows "snd (evaluateTarget opts now vid sv tv s2) = snd (checkPositionJump opts now vid (Some tv) s2)"
proof -
  obtain j s3 where a: "checkPositionJump opts now vid (Some tv) s2 = (j, s3)"
    by (cases "checkPositionJump opts now vid (Some tv) s2")
  show ?thesis
  proof (cases j)
    case True
    then show ?thesis by (simp add: evaluateTarget_def a)
  next
    case False
    with assms classifyAndStore_fst [of opts vid sv tv s3] have False
      by (simp add: evaluateTarget_def a split: option.splits if_splits)
    then show ?thesis ..
  qed
qed

lemma checkCollisionForVessel_jumped:
  assumes "fst (checkCollisionForVessel opts g now ctx s) = PositionJumped"
  shows "\<exists>tv. g ctx = Some tv \<and> isDataFresh opts now (Some tv) \<and>
              snd (checkCollisionForVessel opts g now ctx s) =
                snd (checkPositionJump opts now (lastSegment ctx) (Some tv)
                       (periodicCleanup opts g now (countCall s)))"
  using assms
  by (auto simp: checkCollisionForVessel_staged Let_def evaluateTarget_jumped
      split: option.splits if_splits)

lemma periodicCleanup_collisions:
  "collisions (periodicCleanup opts g now s) =
     (if callCount s mod CLEANUP_FREQUENCY = 0
      then fmfilter (\<lambda>k. \<not> staleCollision opts g now k) (collisions s)
      else collisions s)"
  by (simp add: periodicCleanup_def cleanupStaleCollisions_collisions cong del: fmfilter_cong)

text \<open>
  C7 (as amended). When a position jump is detected for the target, the evaluation skips
  the update and the jump gate itself changes neither the threat set, nor the alarm state,
  nor what has been published: they are as the periodic sweep at the start of the
  evaluation left them, and on an evaluation without a sweep exactly as before the
  evaluation. Even with a sweep, the target's own threat record is as before when the
  context is \<open>vessels.<id>\<close>, and so is the alarm state when such a record exists and
  the alarm invariant held.
\<close>

theorem position_jump_keeps_threats:
  assumes "fst (checkCollisionForVessel opts g now ctx s) = PositionJumped"
  shows "collisions (snd (checkCollisionForVessel opts g now ctx s)) =
           collisions (periodicCleanup opts g now (countCall s)) \<and>
         alarmActive (snd (checkCollisionForVessel opts g now ctx s)) =
           alarmActive (periodicCleanup opts g now (countCall s)) \<and>
         published (snd (checkCollisionForVessel opts g now ctx s)) =
           published (periodicCleanup opts g now (countCall s)) \<and>
         ((callCount s + 1) mod CLEANUP_FREQUENCY \<noteq> 0 \<longrightarrow>
            collisions (snd (checkCollisionForVessel opts g now ctx s)) = collisions s \<and>
            alarmActive (snd (checkCollisionForVessel opts g now ctx s)) = alarmActive s \<and>
            published (snd (checkCollisionForVessel opts g now ctx s)) = published s) \<and>
         (ctx = ''vessels.'' @ lastSegment ctx \<longrightarrow>
            fmlookup (collisions (snd (checkCollisionForVessel opts g now ctx s))) (lastSegment ctx) =
              fmlookup (collisions s) (lastSegment ctx)) \<and>
         (ctx = ''vessels.'' @ lastSegment ctx \<and> alarmActive s = hasCollisions s \<and>
          fmlookup (collisions s) (lastSegment ctx) \<noteq> None \<longrightarrow>
            alarmActive (snd (checkCollisionForVessel opts g now ctx s)) = alarmActive s)"
proof -
  let ?R = "checkCollisionForVessel opts g now ctx s"
  let ?s2 = "periodicCleanup opts g now (countCall s)"
  from checkCollisionForVessel_jumped [OF assms]
  obtain tv where tv: "g ctx = Some tv" "isDataFresh opts now (Some tv)"
    and R: "snd ?R = snd (checkPositionJump opts now (lastSegment ctx) (Some tv) ?s2)"
    by blast
  have 1: "collisions (snd ?R) = collisions ?s2" "alarmActive (snd ?R) = alarmActive ?s2"
    "published (snd ?R) = published ?s2"
    by (simp_all add: R)
  have 2: "collisions (snd ?R) = collisions s \<and> alarmActive (snd ?R) = alarmActive s \<and>
      published (snd ?R) = published s"
    if "(callCount s + 1) mod CLEANUP_FREQUENCY \<noteq> 0"
    using 1 by (simp add: periodicCleanup_countCall_idle [OF that])
  have 3: "fmlookup (collisions (snd ?R)) (lastSegment ctx) = fmlookup (collisions s) (lastSegment ctx)"
    if c: "ctx = ''vessels.'' @ lastSegment ctx"
  proof -
    have "g (''vessels.'' @ lastSegment ctx) = Some tv" using tv(1) c by simp
    then have "\<not> staleCollision opts g now (lastSegment ctx)"
      using tv(2) by (simp add: staleCollision_def)
    then show ?thesis by (simp add: 1 periodicCleanup_collisions)
  qed
  have 4: "alarmActive (snd ?R) = alarmActive s"
    if c: "ctx = ''vessels.'' @ lastSegment ctx" and i: "alarmActive s = hasCollisions s"
      and e: "fmlookup (collisions s) (lastSegment ctx) \<noteq> None"
  proof -
    have "alarmInvariant (snd ?R)"
      by (rule checkCollisionForVessel_invariant) (simp add: alarmInvariant_def i)
    moreover have "collisions (snd ?R) \<noteq> fmempty" using 3 [OF c] e by auto
    moreover have "collisions s \<noteq> fmempty" using e by auto
    ultimately show ?thesis using i by (simp add: alarmInvariant_def hasCollisions_iff)
  qed
  from 1 2 3 4 show ?thesis by blast
qed

lemma jump_haversine:
  "haversineDistance (prevPosition jumpPrev) (position jumpTarget) = Fin (MEAN_RADIUS_M * pi)"
  by (simp add: haversineDistance_def jumpPrev_def jumpTarget_def vesselAt_def js_sub_def Let_def
      ANGLE_TO_RAD_def atan2_real_def)

lemma jump_detected: "jumped (detectPositionJump jumpTarget (Some jumpPrev))"
proof -
  have gt: "45 < MEAN_RADIUS_M * pi"
    using pi_ge_two by (simp add: MEAN_RADIUS_M_def)
  have p: "prevPosition jumpPrev \<noteq> None" "prevTimestamp jumpPrev = Fin 1000000"
    by (simp_all add: jumpPrev_def)
  have t: "position jumpTarget \<noteq> None" "timestamp jumpTarget = Fin 1001000"
    by (simp_all add: jumpTarget_def vesselAt_def)
  show ?thesis
    using gt
    by (simp add: detectPositionJump_def jump_haversine p t falsy_def js_sub_def js_le_def js_gt_def
        Let_def MAX_VESSEL_SPEED_MPS_def JUMP_SPEED_FACTOR_def)
qed

lemma periodicCleanup_previousPositions:
  "previousPositions (periodicCleanup opts g now s) =
     (if callCount s mod CLEANUP_FREQUENCY = 0
      then fmfilter (\<lambda>k. case fmlookup (previousPositions s) k of None \<Rightarrow> False
                   | Some d \<Rightarrow> \<not> stalePosition now
                                   (js_mul (js_mul (PosFreshBefore opts) (Fin 1000)) (Fin 2)) d)
             (previousPositions s)
      else previousPositions s)"
  by (simp add: periodicCleanup_def cleanupStalePositions_previousPositions)

lemma jump_previous:
  "fmlookup (previousPositions (periodicCleanup defaultOptions jumpStore jumpNow
                                  (countCall (jumpState n)))) ''A'' = Some jumpPrev"
proof -
  have "\<not> stalePosition jumpNow
          (js_mul (js_mul (PosFreshBefore defaultOptions) (Fin 1000)) (Fin 2)) jumpPrev"
    by (simp add: stalePosition_def jumpNow_def jumpPrev_def defaultOptions_def js_sub_def js_gt_def)
  then show ?thesis
    by (simp add: periodicCleanup_previousPositions jumpState_def)
qed

lemma jump_outcome:
  "checkCollisionForVessel defaultOptions jumpStore jumpNow ''vessels.A'' (jumpState n) =
     (PositionJumped,
      snd (checkPositionJump defaultOptions jumpNow ''A'' (Some jumpTarget)
             (periodicCleanup defaultOptions jumpStore jumpNow (countCall (jumpState n)))))"
proof -
  let ?sv = "(vesselAt 0 179 0 5)\<lparr>timestamp := Fin 1001000\<rparr>"
  let ?s2 = "periodicCleanup defaultOptions jumpStore jumpNow (countCall (jumpState n))"
  have ctx: "validContext ''vessels.A''" "lastSegment ''vessels.A'' = ''A''"
    by (simp_all add: validContext_def lastSegment_def)
  have g: "jumpStore (selfFullContext (jumpState n)) = Some ?sv"
    "jumpStore ''vessels.A'' = Some jumpTarget"
    by (simp_all add: jumpStore_def jumpState_def initialState_def)
  have f: "isDataFresh defaultOptions jumpNow (Some ?sv)"
    "isDataFresh defaultOptions jumpNow (Some jumpTarget)"
    by (simp_all add: isDataFresh_def jumpTarget_def jumpNow_def vesselAt_def falsy_def js_sub_def
        js_ge_def js_le_def defaultOptions_def Let_def)
  have v: "validateVesselData (Some ?sv)" "validateVesselData (Some jumpTarget)"
    using pi_ge_two
    by (simp_all add: validateVesselData_def validateVesselUpdate_def jumpTarget_def vesselAt_def
        Let_def isNaN_def js_gt_def LAT_BOUND_def LON_BOUND_def)
  have p: "getPreviousPosition ?s2 ''A'' = Entry jumpPrev"
    unfolding getPreviousPosition_def by (rule getMember_own) (rule jump_previous)
  have j: "fst (checkPositionJump defaultOptions jumpNow ''A'' (Some jumpTarget) ?s2)"
    using jump_detected by (simp add: checkPositionJump_def p Let_def)
  obtain s3 where "checkPositionJump defaultOptions jumpNow ''A'' (Some jumpTarget) ?s2 = (True, s3)"
    using j by (cases "checkPositionJump defaultOptions jumpNow ''A'' (Some jumpTarget) ?s2") simp
  then have "evaluateTarget defaultOptions jumpNow ''A'' ?sv jumpTarget ?s2 =
      (PositionJumped, snd (checkPositionJump defaultOptions jumpNow ''A'' (Some jumpTarget) ?s2))"
    by (simp add: evaluateTarget_def)
  then show ?thesis
    by (simp add: checkCollisionForVessel_staged ctx g f v Let_def)
qed

theorem position_jump_keeps_threats_witness:
  "fst (checkCollisionForVessel defaultOptions jumpStore jumpNow ''vessels.A'' (jumpState 0)) =
     PositionJumped \<and>
   collisions (snd (checkCollisionForVessel defaultOptions jumpStore jumpNow ''vessels.A''
                      (jumpState 0))) = fmupd ''B'' exampleThreat fmempty \<and>
   alarmActive (snd (checkCollisionForVessel defaultOptions jumpStore jumpNow ''vessels.A''
                       (jumpState 0)))"
proof -
  have o: "fst (checkCollisionForVessel defaultOptions jumpStore jumpNow ''vessels.A'' (jumpState 0)) =
      PositionJumped"
    by (simp add: jump_outcome)
  have t: "(callCount (jumpState 0) + 1) mod CLEANUP_FREQUENCY \<noteq> 0"
    by (simp add: jumpState_def CLEANUP_FREQUENCY_def)
  have c: "collisions (jumpState 0) = fmupd ''B'' exampleThreat fmempty" "alarmActive (jumpState 0)"
    by (simp_all add: jumpState_def)
  from position_jump_keeps_threats [OF o] t have
    "collisions (snd (checkCollisionForVessel defaultOptions jumpStore jumpNow ''vessels.A''
                      (jumpState 0))) = collisions (jumpState 0)"
    "alarmActive (snd (checkCollisionForVessel defaultOptions jumpStore jumpNow ''vessels.A''
                      (jumpState 0))) = alarmActive (jumpState 0)"
    by blast+
  with o c show ?thesis by simp
qed

text \<open>
  C7 as stated fails on an evaluation that runs the periodic sweep: on the hundredth
  evaluation, with B's data gone, the jump of A is detected and the update skipped, yet
  the threat set (B's record) is emptied and the alarm goes from active to inactive.
\<close>

theorem position_jump_on_cleanup_tick:
  "fst (checkCollisionForVessel defaultOptions jumpStore jumpNow ''vessels.A'' (jumpState 99)) =
     PositionJumped \<and>
   alarmActive (jumpState 99) \<and>
   collisions (jumpState 99) = fmupd ''B'' exampleThreat fmempty \<and>
   collisions (snd (checkCollisionForVessel defaultOptions jumpStore jumpNow ''vessels.A''
                      (jumpState 99))) = fmempty \<and>
   \<not> alarmActive (snd (checkCollisionForVessel defaultOptions jumpStore jumpNow ''vessels.A''
                         (jumpState 99)))"
proof -
  let ?s2 = "periodicCleanup defaultOptions jumpStore jumpNow (countCall (jumpState 99))"
  have st: "staleCollision defaultOptions jumpStore jumpNow ''B''"
    by (simp add: staleCollision_def jumpStore_def)
  have c: "collisions ?s2 = fmempty"
    using st
    by (simp add: periodicCleanup_collisions jumpState_def CLEANUP_FREQUENCY_def
        cong del: fmfilter_cong)
  have "alarmInvariant (jumpState 99)"
    by (simp add: alarmInvariant_def hasCollisions_iff jumpState_def)
  then have "alarmInvariant ?s2" by (simp add: periodicCleanup_invariant)
  then have a: "\<not> alarmActive ?s2" using c by (simp add: alarmInvariant_def hasCollisions_iff)
  have s: "alarmActive (jumpState 99)" "collisions (jumpState 99) = fmupd ''B'' exampleThreat fmempty"
    by (simp_all add: jumpState_def)
  show ?thesis
    using c a s by (simp add: jump_outcome)
qed

section \<open>The bound on the tracked positions\<close>

lemma fcard_fmdom_fmfilter: "fcard (fmdom (fmfilter P m)) \<le> fcard (fmdom m)"
  by (rule fcard_mono) auto

lemma trackedCount_cleanup: "trackedCount (cleanupStalePositions opts now s) \<le> trackedCount s"
  unfolding trackedCount_def cleanupStalePositions_previousPositions
  by (rule fcard_fmdom_fmfilter)

lemma timestampsTruthy_cleanup:
  "timestampsTruthy s \<Longrightarrow> timestampsTruthy (cleanupStalePositions opts now s)"
  by (auto simp: timestampsTruthy_def cleanupStalePositions_previousPositions split: if_splits)

lemma cleanup_is_spec_sweep:
  assumes "timestampsTruthy s"
  shows "previousPositions (cleanupStalePositions opts now s) = spec_sweep opts now (previousPositions s)"
  unfolding cleanupStalePositions_previousPositions spec_sweep_def
  by (rule fmfilter_cong)
     (use assms in \<open>auto simp: timestampsTruthy_def stalePosition_def spec_olderThan_def\<close>)

lemma trackedCount_fmupd_new:
  "trackedCount (s\<lparr>previousPositions := fmupd vid d (previousPositions s)\<rparr>) \<le> trackedCount s + 1"
  by (simp add: trackedCount_def fcard_finsert_if)

lemma trackedCount_fmupd_old:
  "fmlookup (previousPositions s) vid \<noteq> None \<Longrightarrow>
     trackedCount (s\<lparr>previousPositions := fmupd vid d (previousPositions s)\<rparr>) = trackedCount s"
  by (auto simp: trackedCount_def fcard_finsert_if intro: fmdomI)

lemma trackedCount_stats [simp]: "trackedCount (s\<lparr>stats := st\<rparr>) = trackedCount s"
  by (simp add: trackedCount_def)

lemma timestampsTruthy_stats [simp]: "timestampsTruthy (s\<lparr>stats := st\<rparr>) = timestampsTruthy s"
  by (simp add: timestampsTruthy_def)

subsection \<open>The three ways through checkPositionJump\<close>

lemma checkPositionJump_jumped:
  assumes "jumped (case getPreviousPosition s vid of
                     Entry prev \<Rightarrow> detectPositionJump c (Some prev) | _ \<Rightarrow> NotJumped)"
  shows "checkPositionJump opts now vid (Some c) s =
     (True, s\<lparr>stats := (stats s)\<lparr>positionJumpsDetected := positionJumpsDetected (stats s) + 1\<rparr>\<rparr>)"
proof -
  have j: "jumped (case (getPreviousPosition s vid, Some c) of
               (Entry prev, Some cur) \<Rightarrow> detectPositionJump cur (Some prev) | _ \<Rightarrow> NotJumped) = True"
    using assms by (simp split: member.splits)
  show ?thesis
    unfolding checkPositionJump_def Let_def j by (simp only: if_True)
qed

lemma checkPositionJump_noPosition:
  assumes "\<not> jumped (case getPreviousPosition s vid of
                        Entry prev \<Rightarrow> detectPositionJump c (Some prev) | _ \<Rightarrow> NotJumped)"
    and "position c = None"
  shows "checkPositionJump opts now vid (Some c) s = (False, s)"
proof -
  have nj: "jumped (case (getPreviousPosition s vid, Some c) of
               (Entry prev, Some cur) \<Rightarrow> detectPositionJump cur (Some prev) | _ \<Rightarrow> NotJumped) = False"
    using assms(1) by (simp split: member.splits)
  show ?thesis
    unfolding checkPositionJump_def Let_def nj
    by (simp only: if_False option.case assms(2) simp_thms if_True)
qed

lemma checkPositionJump_recorded:
  assumes "\<not> jumped (case getPreviousPosition s vid of
                        Entry prev \<Rightarrow> detectPositionJump c (Some prev) | _ \<Rightarrow> NotJumped)"
    and "position c = Some p"
  shows "checkPositionJump opts now vid (Some c) s =
     (False,
      if VESSEL_TRACKING_LIMIT \<le> fcard (fmdom (previousPositions s)) \<and>
         \<not> truthy (getPreviousPosition s vid)
      then if VESSEL_TRACKING_LIMIT \<le> fcard (fmdom (previousPositions (cleanupStalePositions opts now s)))
           then cleanupStalePositions opts now s
           else setPreviousPosition vid \<lparr>prevPosition = position c, prevTimestamp = timestamp c\<rparr>
                  (cleanupStalePositions opts now s)
      else setPreviousPosition vid \<lparr>prevPosition = position c, prevTimestamp = timestamp c\<rparr> s)"
proof -
  have nj: "jumped (case (getPreviousPosition s vid, Some c) of
               (Entry prev, Some cur) \<Rightarrow> detectPositionJump cur (Some prev) | _ \<Rightarrow> NotJumped) = False"
    using assms(1) by (simp split: member.splits)
  show ?thesis
  proof (cases "VESSEL_TRACKING_LIMIT \<le> fcard (fmdom (previousPositions s)) \<and>
                 \<not> truthy (getPreviousPosition s vid)")
    case True
    then show ?thesis
      unfolding checkPositionJump_def Let_def nj
      by (cases "VESSEL_TRACKING_LIMIT \<le>
                   fcard (fmdom (previousPositions (cleanupStalePositions opts now s)))")
         (simp_all add: assms(2))
  next
    case False
    then show ?thesis
      unfolding checkPositionJump_def Let_def nj by (auto simp: assms(2))
  qed
qed

lemma checkPositionJump_noData: "checkPositionJump opts now vid None s = (False, s)"
  by (simp add: checkPositionJump_def Let_def split: option.splits member.splits)

subsection \<open>Vessel ids that name no inherited member\<close>

lemma getPreviousPosition_ownName:
  assumes "\<not> inheritedName vid" and "previousPositionsProto s = None"
  shows "getPreviousPosition s vid =
           (case fmlookup (previousPositions s) vid of None \<Rightarrow> Missing | Some d \<Rightarrow> Entry d)"
  using getMember_ownName [OF assms(1)] by (simp add: getPreviousPosition_def assms(2))

lemma checkPositionJump_ownName:
  assumes own: "\<not> inheritedName vid" and proto: "previousPositionsProto s = None"
  shows
    "jumped (case fmlookup (previousPositions s) vid of
               None \<Rightarrow> NotJumped | Some prev \<Rightarrow> detectPositionJump c (Some prev)) \<Longrightarrow>
     checkPositionJump opts now vid (Some c) s =
       (True, s\<lparr>stats := (stats s)\<lparr>positionJumpsDetected := positionJumpsDetected (stats s) + 1\<rparr>\<rparr>)"
    "\<not> jumped (case fmlookup (previousPositions s) vid of
                 None \<Rightarrow> NotJumped | Some prev \<Rightarrow> detectPositionJump c (Some prev)) \<Longrightarrow>
     position c = None \<Longrightarrow> checkPositionJump opts now vid (Some c) s = (False, s)"
    "\<not> jumped (case fmlookup (previousPositions s) vid of
                 None \<Rightarrow> NotJumped | Some prev \<Rightarrow> detectPositionJump c (Some prev)) \<Longrightarrow>
     position c = Some p \<Longrightarrow>
     checkPositionJump opts now vid (Some c) s =
       (False,
        if VESSEL_TRACKING_LIMIT \<le> fcard (fmdom (previousPositions s)) \<and>
           fmlookup (previousPositions s) vid = None
        then if VESSEL_TRACKING_LIMIT \<le> fcard (fmdom (previousPositions (cleanupStalePositions opts now s)))
             then cleanupStalePositions opts now s
             else (cleanupStalePositions opts now s)
                    \<lparr>previousPositions :=
                       fmupd vid \<lparr>prevPosition = position c, prevTimestamp = timestamp c\<rparr>
                         (previousPositions (cleanupStalePositions opts now s))\<rparr>
        else s\<lparr>previousPositions :=
                 fmupd vid \<lparr>prevPosition = position c, prevTimestamp = timestamp c\<rparr>
                   (previousPositions s)\<rparr>)"
proof -
  note g = getPreviousPosition_ownName [OF own proto]
  have j: "jumped (case getPreviousPosition s vid of
                     Entry prev \<Rightarrow> detectPositionJump c (Some prev) | _ \<Rightarrow> NotJumped) =
           jumped (case fmlookup (previousPositions s) vid of
                     None \<Rightarrow> NotJumped | Some prev \<Rightarrow> detectPositionJump c (Some prev))"
    by (simp add: g split: option.splits)
  have t: "truthy (getPreviousPosition s vid) = (fmlookup (previousPositions s) vid \<noteq> None)"
    by (simp add: g split: option.splits)
  have v: "vid \<noteq> ''__proto__''" using own by (auto simp: inheritedName_def)
  show "jumped (case fmlookup (previousPositions s) vid of
               None \<Rightarrow> NotJumped | Some prev \<Rightarrow> detectPositionJump c (Some prev)) \<Longrightarrow>
     checkPositionJump opts now vid (Some c) s =
       (True, s\<lparr>stats := (stats s)\<lparr>positionJumpsDetected := positionJumpsDetected (stats s) + 1\<rparr>\<rparr>)"
    using checkPositionJump_jumped [where s = s and vid = vid and c = c and opts = opts and now = now] j by simp
  show "\<not> jumped (case fmlookup (previousPositions s) vid of
                 None \<Rightarrow> NotJumped | Some prev \<Rightarrow> detectPositionJump c (Some prev)) \<Longrightarrow>
     position c = None \<Longrightarrow> checkPositionJump opts now vid (Some c) s = (False, s)"
    using checkPositionJump_noPosition [where s = s and vid = vid and c = c and opts = opts and now = now] j by simp
  show "\<not> jumped (case fmlookup (previousPositions s) vid of
                 None \<Rightarrow> NotJumped | Some prev \<Rightarrow> detectPositionJump c (Some prev)) \<Longrightarrow>
     position c = Some p \<Longrightarrow>
     checkPositionJump opts now vid (Some c) s =
       (False,
        if VESSEL_TRACKING_LIMIT \<le> fcard (fmdom (previousPositions s)) \<and>
           fmlookup (previousPositions s) vid = None
        then if VESSEL_TRACKING_LIMIT \<le> fcard (fmdom (previousPositions (cleanupStalePositions opts now s)))
             then cleanupStalePositions opts now s
             else (cleanupStalePositions opts now s)
                    \<lparr>previousPositions :=
                       fmupd vid \<lparr>prevPosition = position c, prevTimestamp = timestamp c\<rparr>
                         (previousPositions (cleanupStalePositions opts now s))\<rparr>
        else s\<lparr>previousPositions :=
                 fmupd vid \<lparr>prevPosition = position c, prevTimestamp = timestamp c\<rparr>
                   (previousPositions s)\<rparr>)"
    using checkPositionJump_recorded [where s = s and vid = vid and c = c and p = p and opts = opts and now = now] j
    by (simp add: t setPreviousPosition_ownName [OF v])
qed

lemma checkPositionJump_prototype:
  "vid \<noteq> ''__proto__'' \<Longrightarrow>
     previousPositionsProto (snd (checkPositionJump opts now vid cur s)) = previousPositionsProto s"
  by (simp add: checkPositionJump_def Let_def setPreviousPosition_ownName
      split: option.splits member.splits)


lemma checkPositionJump_bound:
  assumes "trackedCount s \<le> VESSEL_TRACKING_LIMIT"
    and own: "\<not> inheritedName vid" and proto: "previousPositionsProto s = None"
  shows "trackedCount (snd (checkPositionJump opts now vid cur s)) \<le> VESSEL_TRACKING_LIMIT"
proof (cases cur)
  case None
  then show ?thesis using assms by (simp add: checkPositionJump_noData)
next
  case (Some c)
  let ?j = "jumped (case fmlookup (previousPositions s) vid of
                     None \<Rightarrow> NotJumped | Some prev \<Rightarrow> detectPositionJump c (Some prev))"
  let ?d = "\<lparr>prevPosition = position c, prevTimestamp = timestamp c\<rparr>"
  let ?s1 = "cleanupStalePositions opts now s"
  note way = checkPositionJump_ownName [OF own proto, where c = c and opts = opts and now = now]
  show ?thesis
  proof (cases ?j)
    case True
    show ?thesis unfolding Some way(1) [OF True] using assms by simp
  next
    case nj: False
    show ?thesis
    proof (cases "position c")
      case None
      show ?thesis unfolding Some way(2) [OF nj None] using assms by simp
    next
      case (Some p)
      note rec = way(3) [OF nj Some]
      show ?thesis
      proof (cases "VESSEL_TRACKING_LIMIT \<le> fcard (fmdom (previousPositions s)) \<and>
                     fmlookup (previousPositions s) vid = None")
        case atLimit: True
        show ?thesis
        proof (cases "VESSEL_TRACKING_LIMIT \<le> fcard (fmdom (previousPositions ?s1))")
          case True
          have "trackedCount ?s1 \<le> VESSEL_TRACKING_LIMIT"
            using trackedCount_cleanup [of opts now s] assms by simp
          then show ?thesis
            unfolding \<open>cur = Some c\<close> rec by (simp add: atLimit True)
        next
          case False
          then have "trackedCount ?s1 < VESSEL_TRACKING_LIMIT" by (simp add: trackedCount_def)
          then have "trackedCount (?s1\<lparr>previousPositions := fmupd vid ?d (previousPositions ?s1)\<rparr>)
              \<le> VESSEL_TRACKING_LIMIT"
            using trackedCount_fmupd_new [where s = ?s1 and vid = vid and d = ?d] by simp
          then show ?thesis
            unfolding \<open>cur = Some c\<close> rec by (simp add: atLimit False)
        qed
      next
        case notLimit: False
        have "trackedCount (s\<lparr>previousPositions := fmupd vid ?d (previousPositions s)\<rparr>)
              \<le> VESSEL_TRACKING_LIMIT"
        proof (cases "fmlookup (previousPositions s) vid = None")
          case True
          with notLimit have "trackedCount s < VESSEL_TRACKING_LIMIT" by (simp add: trackedCount_def)
          then show ?thesis
            using trackedCount_fmupd_new [where s = s and vid = vid and d = ?d] by simp
        next
          case False
          then show ?thesis
            using trackedCount_fmupd_old [where s = s and vid = vid and d = ?d] assms by simp
        qed
        then show ?thesis
          unfolding \<open>cur = Some c\<close> rec using notLimit by auto
      qed
    qed
  qed
qed

lemma timestampsTruthy_fmupd:
  "timestampsTruthy s \<Longrightarrow> \<not> falsy (prevTimestamp d) \<Longrightarrow>
     timestampsTruthy (s\<lparr>previousPositions := fmupd vid d (previousPositions s)\<rparr>)"
  by (simp add: timestampsTruthy_def)

lemma checkPositionJump_truthy:
  assumes "timestampsTruthy s" and "\<not> falsy (timestamp c)"
    and own: "\<not> inheritedName vid" and proto: "previousPositionsProto s = None"
  shows "timestampsTruthy (snd (checkPositionJump opts now vid (Some c) s))"
proof -
  let ?j = "jumped (case fmlookup (previousPositions s) vid of
                     None \<Rightarrow> NotJumped | Some prev \<Rightarrow> detectPositionJump c (Some prev))"
  let ?d = "\<lparr>prevPosition = position c, prevTimestamp = timestamp c\<rparr>"
  have d: "\<not> falsy (prevTimestamp ?d)" using assms(2) by simp
  note way = checkPositionJump_ownName [OF own proto, where c = c and opts = opts and now = now]
  show ?thesis
  proof (cases ?j)
    case True
    show ?thesis unfolding way(1) [OF True] using assms(1) by simp
  next
    case nj: False
    show ?thesis
    proof (cases "position c")
      case None
      show ?thesis unfolding way(2) [OF nj None] using assms(1) by simp
    next
      case (Some p)
      show ?thesis
        unfolding way(3) [OF nj Some]
        using timestampsTruthy_cleanup [OF assms(1), of opts now]
          timestampsTruthy_fmupd [OF assms(1) d, of vid]
          timestampsTruthy_fmupd [OF timestampsTruthy_cleanup [OF assms(1), of opts now] d, of vid]
        by (simp split: if_splits)
    qed
  qed
qed

lemma isDataFresh_truthy: "isDataFresh opts now (Some v) \<Longrightarrow> \<not> falsy (timestamp v)"
  by (auto simp: isDataFresh_def)

lemma evaluateTarget_previousPositions:
  "previousPositions (snd (evaluateTarget opts now vid sv tv s2)) =
     previousPositions (snd (checkPositionJump opts now vid (Some tv) s2))"
  "previousPositionsProto (snd (evaluateTarget opts now vid sv tv s2)) =
     previousPositionsProto (snd (checkPositionJump opts now vid (Some tv) s2))"
proof -
  obtain j s3 where a: "checkPositionJump opts now vid (Some tv) s2 = (j, s3)"
    by (cases "checkPositionJump opts now vid (Some tv) s2")
  show "previousPositions (snd (evaluateTarget opts now vid sv tv s2)) =
     previousPositions (snd (checkPositionJump opts now vid (Some tv) s2))"
    by (simp add: evaluateTarget_def a split: option.splits)
  show "previousPositionsProto (snd (evaluateTarget opts now vid sv tv s2)) =
     previousPositionsProto (snd (checkPositionJump opts now vid (Some tv) s2))"
    by (simp add: evaluateTarget_def a split: option.splits)
qed

lemma trackingInvariant_cong:
  "previousPositions s' = previousPositions s \<Longrightarrow>
   previousPositionsProto s' = previousPositionsProto s \<Longrightarrow>
     trackingInvariant s' = trackingInvariant s"
  by (simp add: trackingInvariant_def trackedCount_def timestampsTruthy_def)

lemma trackingInvariant_periodicCleanup:
  assumes "trackingInvariant s"
  shows "trackingInvariant (periodicCleanup opts g now s)"
proof (cases "callCount s mod CLEANUP_FREQUENCY = 0")
  case True
  have "trackingInvariant (cleanupStalePositions opts now s)"
    using assms trackedCount_cleanup [of opts now s] timestampsTruthy_cleanup [of s opts now]
    by (simp add: trackingInvariant_def)
  moreover have "previousPositions (periodicCleanup opts g now s) =
      previousPositions (cleanupStalePositions opts now s)"
    using True by (simp add: periodicCleanup_def)
  moreover have "previousPositionsProto (periodicCleanup opts g now s) =
      previousPositionsProto (cleanupStalePositions opts now s)"
    by simp
  ultimately show ?thesis using trackingInvariant_cong by blast
next
  case False
  then show ?thesis using assms by (simp add: periodicCleanup_def)
qed

lemma trackingInvariant_evaluateTarget:
  assumes "trackingInvariant s2" and "isDataFresh opts now (Some tv)" and own: "\<not> inheritedName vid"
  shows "trackingInvariant (snd (evaluateTarget opts now vid sv tv s2))"
proof -
  have proto: "previousPositionsProto s2 = None" using assms(1) by (simp add: trackingInvariant_def)
  have v: "vid \<noteq> ''__proto__''" using own by (auto simp: inheritedName_def)
  have "trackingInvariant (snd (checkPositionJump opts now vid (Some tv) s2))"
    using assms(1) checkPositionJump_bound [OF _ own proto, of opts now "Some tv"]
      checkPositionJump_truthy [OF _ isDataFresh_truthy [OF assms(2)] own proto, of opts now]
      checkPositionJump_prototype [OF v, of opts now "Some tv" s2]
    by (simp add: trackingInvariant_def)
  moreover have "trackingInvariant (snd (evaluateTarget opts now vid sv tv s2)) =
      trackingInvariant (snd (checkPositionJump opts now vid (Some tv) s2))"
    by (rule trackingInvariant_cong) (rule evaluateTarget_previousPositions)+
  ultimately show ?thesis by simp
qed

lemma trackingInvariant_checkCollisionForVessel:
  assumes "trackingInvariant s" and own: "\<not> inheritedName (lastSegment ctx)"
  shows "trackingInvariant (snd (checkCollisionForVessel opts g now ctx s))"
proof -
  let ?s2 = "periodicCleanup opts g now (countCall s)"
  have "trackingInvariant (countCall s) = trackingInvariant s"
    by (rule trackingInvariant_cong) simp_all
  then have "trackingInvariant (countCall s)" using assms(1) by simp
  then have s2: "trackingInvariant ?s2" by (rule trackingInvariant_periodicCleanup)
  have "trackingInvariant (removeCollision vid ?s2) = trackingInvariant ?s2"
    "trackingInvariant (removeCollision vid (countStale ?s2)) = trackingInvariant ?s2" for vid
    by (rule trackingInvariant_cong; simp)+
  then have rm: "trackingInvariant (removeCollision vid ?s2)"
    "trackingInvariant (removeCollision vid (countStale ?s2))" for vid
    using s2 by simp_all
  show ?thesis
    using assms(1) s2 rm own
    by (simp add: checkCollisionForVessel_staged Let_def trackingInvariant_evaluateTarget
        split: option.splits)
qed

lemma trackingInvariant_initialState: "trackingInvariant (initialState selfCtx t0)"
  by (simp add: trackingInvariant_def trackedCount_def timestampsTruthy_def initialState_def
      fcard_fempty)

lemma trackingInvariant_runChecks:
  "trackingInvariant s \<Longrightarrow> ownNames inputs \<Longrightarrow> trackingInvariant (runChecks opts inputs s)"
proof (induction inputs arbitrary: s)
  case Nil
  then show ?case by simp
next
  case (Cons i inputs)
  obtain g now ctx where i: "i = (g, now, ctx)" by (cases i)
  have own: "\<not> inheritedName (lastSegment ctx)" and rest: "ownNames inputs"
    using Cons.prems(2) by (simp_all add: ownNames_def i)
  show ?case
    unfolding i runChecks.simps
    by (rule Cons.IH) (rule trackingInvariant_checkCollisionForVessel [OF Cons.prems(1) own], rule rest)
qed

text \<open>
  Where the bound holds. Along every sequence of evaluations from the initial state in
  which no vessel id names an inherited member, the map of previous positions never holds
  more than the tracking limit of 1000 entries (and every stored timestamp is truthy).
\<close>

lemma previousPositions_bounded_ownNames:
  assumes "ownNames inputs"
  shows "fcard (fmdom (previousPositions (runChecks opts inputs (initialState selfCtx t0))))
           \<le> VESSEL_TRACKING_LIMIT"
    and "timestampsTruthy (runChecks opts inputs (initialState selfCtx t0))"
proof -
  have "trackingInvariant (runChecks opts inputs (initialState selfCtx t0))"
    by (rule trackingInvariant_runChecks) (rule trackingInvariant_initialState, rule assms)
  then show "fcard (fmdom (previousPositions (runChecks opts inputs (initialState selfCtx t0))))
           \<le> VESSEL_TRACKING_LIMIT"
    and "timestampsTruthy (runChecks opts inputs (initialState selfCtx t0))"
    by (simp_all add: trackingInvariant_def trackedCount_def)
qed

text \<open>
  For such an id, in a state with truthy timestamps and no installed prototype, an insert
  of a new vessel identifier while the map is at capacity first runs the cleanup sweep,
  which removes exactly the entries older than twice the freshness limit; if the map is
  still at capacity afterwards the new entry is not recorded, and otherwise it is recorded
  in the swept map. In both cases no jump is reported, so the evaluation goes on to the
  range filter and the classification.
\<close>

lemma checkPositionJump_atCapacity_ownName:
  assumes own: "\<not> inheritedName vid" and proto: "previousPositionsProto s = None"
    and t: "timestampsTruthy s"
    and full: "VESSEL_TRACKING_LIMIT \<le> fcard (fmdom (previousPositions s))"
    and new: "fmlookup (previousPositions s) vid = None"
    and pos: "position cur \<noteq> None"
  shows "previousPositions (cleanupStalePositions opts now s) =
           spec_sweep opts now (previousPositions s)"
    and "checkPositionJump opts now vid (Some cur) s =
        (False,
         if VESSEL_TRACKING_LIMIT \<le> fcard (fmdom (spec_sweep opts now (previousPositions s)))
         then cleanupStalePositions opts now s
         else (cleanupStalePositions opts now s)
                \<lparr>previousPositions :=
                   fmupd vid \<lparr>prevPosition = position cur, prevTimestamp = timestamp cur\<rparr>
                     (spec_sweep opts now (previousPositions s))\<rparr>)"
    and "fst (evaluateTarget opts now vid sv cur s) \<noteq> PositionJumped"
proof -
  obtain p where p: "position cur = Some p" using pos by auto
  have nj: "\<not> jumped (case fmlookup (previousPositions s) vid of
                      None \<Rightarrow> NotJumped | Some prev \<Rightarrow> detectPositionJump cur (Some prev))"
    by (simp add: new)
  note sw = cleanup_is_spec_sweep [OF t, of opts now]
  show "previousPositions (cleanupStalePositions opts now s) =
           spec_sweep opts now (previousPositions s)"
    by (rule sw)
  show r: "checkPositionJump opts now vid (Some cur) s =
        (False,
         if VESSEL_TRACKING_LIMIT \<le> fcard (fmdom (spec_sweep opts now (previousPositions s)))
         then cleanupStalePositions opts now s
         else (cleanupStalePositions opts now s)
                \<lparr>previousPositions :=
                   fmupd vid \<lparr>prevPosition = position cur, prevTimestamp = timestamp cur\<rparr>
                     (spec_sweep opts now (previousPositions s))\<rparr>)"
    unfolding checkPositionJump_ownName(3) [OF own proto nj p, of opts now] sw
    using full new by simp
  show "fst (evaluateTarget opts now vid sv cur s) \<noteq> PositionJumped"
    unfolding evaluateTarget_def r
    by (simp add: classifyAndStore_fst split: option.splits)
qed

subsection \<open>Vessel ids that name a member of Object.prototype\<close>

text \<open>
  For an id that names a member of \<open>Object.prototype\<close> and has no entry of its own, the
  read of the previous position yields the inherited function, which is truthy: no jump is
  reported, the test for a new vessel fails whatever the size of the map, and the position
  is recorded without a sweep.
\<close>

lemma checkPositionJump_inheritedName:
  assumes name: "vid \<in> set objectPrototypeNames"
    and new: "fmlookup (previousPositions s) vid = None"
    and proto: "previousPositionsProto s = None"
    and pos: "position cur \<noteq> None"
  shows "checkPositionJump opts now vid (Some cur) s =
     (False,
      s\<lparr>previousPositions :=
          fmupd vid \<lparr>prevPosition = position cur, prevTimestamp = timestamp cur\<rparr>
            (previousPositions s)\<rparr>)"
proof -
  obtain p where p: "position cur = Some p" using pos by auto
  have v: "vid \<noteq> ''__proto__''" using name by (auto simp: objectPrototypeNames_def)
  have g: "getPreviousPosition s vid = Foreign True"
    using name v by (simp add: getPreviousPosition_def getMember_def new proto)
  have nj: "\<not> jumped (case getPreviousPosition s vid of
                        Entry prev \<Rightarrow> detectPositionJump cur (Some prev) | _ \<Rightarrow> NotJumped)"
    by (simp add: g)
  show ?thesis
    unfolding checkPositionJump_recorded [OF nj p, of opts now]
    by (simp add: g setPreviousPosition_ownName [OF v])
qed

subsection \<open>A run that reaches the capacity\<close>

lemma inj_fillName: "inj fillName"
proof (rule injI)
  fix i j
  assume "fillName i = fillName j"
  then have "length (fillName i) = length (fillName j)" by simp
  then show "i = j" by (simp add: fillName_def)
qed

lemma filled_card:
  assumes "filled n s"
  shows "fcard (fmdom (previousPositions s)) = n"
proof -
  have "fmdom' (previousPositions s) = fillName ` {..<n}"
    using assms by (auto simp: filled_def fmdom'_alt_def fmlookup_dom_iff split: if_splits)
  then have "card (fmdom' (previousPositions s)) = n"
    by (simp add: card_image inj_fillName [THEN inj_on_subset])
  then show ?thesis
    by (simp add: fcard.rep_eq fmdom'_alt_def)
qed

lemma lastSegment_fillContext: "lastSegment (fillContext i) = fillName i"
proof -
  have "takeWhile (\<lambda>c. c \<noteq> CHR ''.'') (replicate (Suc i) CHR ''v'' @ ''.slessev'') =
      replicate (Suc i) CHR ''v'' @ takeWhile (\<lambda>c. c \<noteq> CHR ''.'') ''.slessev''"
    by (rule takeWhile_append2) auto
  then have "takeWhile (\<lambda>c. c \<noteq> CHR ''.'') (rev (''vessels.'' @ fillName i)) =
      replicate (Suc i) CHR ''v''"
    by (simp add: fillName_def del: replicate_Suc)
  then show ?thesis
    unfolding lastSegment_def fillContext_def by (simp add: fillName_def del: replicate_Suc)
qed

lemma set_fillName: "set (fillName i) = {CHR ''v''}"
  unfolding fillName_def by (rule set_replicate_Suc)

lemma fillName_not_vessels: "fillName i \<noteq> ''vessels''"
proof
  assume a: "fillName i = ''vessels''"
  have "CHR ''e'' \<in> set ''vessels''" by simp
  then have "CHR ''e'' \<in> set (fillName i)" unfolding a .
  then show False unfolding set_fillName by simp
qed

lemma inheritedNames_letters:
  "list_all (\<lambda>k. \<exists>c \<in> set k. c \<noteq> CHR ''v'') (''__proto__'' # objectPrototypeNames)"
  by (simp add: objectPrototypeNames_def)

lemma inheritedName_letters: "inheritedName k \<Longrightarrow> \<exists>c \<in> set k. c \<noteq> CHR ''v''"
proof -
  assume "inheritedName k"
  then have "k \<in> set (''__proto__'' # objectPrototypeNames)" by (simp add: inheritedName_def)
  with inheritedNames_letters show ?thesis unfolding list_all_iff by blast
qed

lemma fillName_ownName: "\<not> inheritedName (fillName i)"
  using inheritedName_letters [of "fillName i"] by (auto simp: set_fillName)

lemma validContext_fillContext: "validContext (fillContext i)"
proof -
  have "fillContext i \<noteq> []" "CHR ''.'' \<in> set (fillContext i)"
    by (simp_all add: fillContext_def)
  moreover have "fillName i \<noteq> []" unfolding fillName_def by simp
  ultimately show ?thesis
    unfolding validContext_def lastSegment_fillContext
    using fillName_not_vessels [of i] by blast
qed

lemma fill_fresh: "isDataFresh defaultOptions fillNow (Some fillVessel)"
  by (simp add: isDataFresh_def fillVessel_def fillNow_def vesselAt_def falsy_def js_sub_def
      js_ge_def js_le_def defaultOptions_def Let_def)

lemma fill_valid: "validateVesselData (Some fillVessel)"
  using pi_ge_two
  by (simp add: validateVesselData_def validateVesselUpdate_def fillVessel_def vesselAt_def
      Let_def isNaN_def js_gt_def LAT_BOUND_def LON_BOUND_def)

lemma fillPoint_not_stale:
  "\<not> stalePosition fillNow (js_mul (js_mul (PosFreshBefore defaultOptions) (Fin 1000)) (Fin 2)) fillPoint"
  by (simp add: stalePosition_def fillPoint_def fillVessel_def fillNow_def vesselAt_def
      defaultOptions_def js_sub_def js_gt_def)

lemma filled_cleanup:
  assumes "filled n s"
  shows "previousPositions (cleanupStalePositions defaultOptions fillNow s) = previousPositions s"
  unfolding cleanupStalePositions_previousPositions
proof (rule fmfilter_true)
  fix x y
  assume "fmlookup (previousPositions s) x = Some y"
  moreover from this assms have "y = fillPoint" by (auto simp: filled_def split: if_splits)
  ultimately show "case fmlookup (previousPositions s) x of None \<Rightarrow> False
                 | Some d \<Rightarrow> \<not> stalePosition fillNow
                      (js_mul (js_mul (PosFreshBefore defaultOptions) (Fin 1000)) (Fin 2)) d"
    using fillPoint_not_stale by simp
qed

lemma filled_periodicCleanup:
  assumes "filled n s"
  shows "previousPositions (periodicCleanup defaultOptions g fillNow s) = previousPositions s"
  using filled_cleanup [OF assms] by (simp add: periodicCleanup_def)

lemma filled_start:
  assumes "filled n s"
  shows "filled n (periodicCleanup defaultOptions fillStore fillNow (countCall s))"
proof -
  have c: "filled n (countCall s)" using assms by (simp add: filled_def)
  show ?thesis
    using c filled_periodicCleanup [OF c, of fillStore] by (simp add: filled_def)
qed

lemma fill_evaluation:
  assumes "validContext ctx"
  shows "snd (checkCollisionForVessel defaultOptions fillStore fillNow ctx s) =
      snd (evaluateTarget defaultOptions fillNow (lastSegment ctx) fillVessel fillVessel
             (periodicCleanup defaultOptions fillStore fillNow (countCall s)))"
  using assms
  by (simp add: checkCollisionForVessel_staged fillStore_def fill_fresh fill_valid Let_def)

lemma fill_position: "position fillVessel = Some \<lparr>latitude = Num (Fin 60), longitude = Num (Fin 24)\<rparr>"
  by (simp add: fillVessel_def vesselAt_def)

lemma filled_step:
  assumes "filled n s" and "n < VESSEL_TRACKING_LIMIT"
  shows "filled (Suc n)
           (snd (checkCollisionForVessel defaultOptions fillStore fillNow (fillContext n) s))"
proof -
  let ?ctx = "fillContext n"
  let ?s2 = "periodicCleanup defaultOptions fillStore fillNow (countCall s)"
  let ?R = "snd (checkCollisionForVessel defaultOptions fillStore fillNow ?ctx s)"
  note f2 = filled_start [OF assms(1)]
  have proto: "previousPositionsProto ?s2 = None" using f2 by (simp add: filled_def)
  have new: "fmlookup (previousPositions ?s2) (fillName n) = None"
    using f2 inj_fillName by (auto simp: filled_def inj_def)
  have nj: "\<not> jumped (case fmlookup (previousPositions ?s2) (fillName n) of
                        None \<Rightarrow> NotJumped
                      | Some prev \<Rightarrow> detectPositionJump fillVessel (Some prev))"
    by (simp add: new)
  have notFull: "(VESSEL_TRACKING_LIMIT \<le> fcard (fmdom (previousPositions ?s2)) \<and>
                    fmlookup (previousPositions ?s2) (fillName n) = None) = False"
    using filled_card [OF f2] assms(2) by simp
  have rec: "previousPositions
               (snd (checkPositionJump defaultOptions fillNow (fillName n) (Some fillVessel) ?s2)) =
             fmupd (fillName n) fillPoint (previousPositions ?s2)"
    unfolding checkPositionJump_ownName(3) [OF fillName_ownName proto nj fill_position,
        of defaultOptions fillNow] notFull
    by (simp add: fillPoint_def)
  have v: "fillName n \<noteq> ''__proto__''" using fillName_ownName [of n] by (auto simp: inheritedName_def)
  have R: "?R = snd (evaluateTarget defaultOptions fillNow (fillName n) fillVessel fillVessel ?s2)"
    using fill_evaluation [OF validContext_fillContext, of n s] by (simp add: lastSegment_fillContext)
  have "previousPositions ?R = fmupd (fillName n) fillPoint (previousPositions ?s2)"
    unfolding R evaluateTarget_previousPositions rec ..
  then have "fmlookup (previousPositions ?R) k =
      (if k \<in> fillName ` {..<Suc n} then Some fillPoint else None)" for k
    using f2 by (simp add: filled_def lessThan_Suc)
  moreover have "previousPositionsProto ?R = None"
    unfolding R evaluateTarget_previousPositions checkPositionJump_prototype [OF v] by (rule proto)
  ultimately show ?thesis unfolding filled_def by blast
qed

lemma runChecks_append:
  "runChecks opts (xs @ ys) s = runChecks opts ys (runChecks opts xs s)"
  by (induction xs arbitrary: s) auto

lemma filled_run:
  "n \<le> VESSEL_TRACKING_LIMIT \<Longrightarrow>
     filled n (runChecks defaultOptions (fillInputs n) (initialState ''vessels.self'' (Fin 0)))"
proof (induction n)
  case 0
  then show ?case by (simp add: fillInputs_def filled_def initialState_def)
next
  case (Suc n)
  then have "filled n (runChecks defaultOptions (fillInputs n) (initialState ''vessels.self'' (Fin 0)))"
    and "n < VESSEL_TRACKING_LIMIT"
    by simp_all
  from filled_step [OF this] show ?case
    by (simp add: fillInputs_def runChecks_append)
qed

lemma filled_fullState: "filled VESSEL_TRACKING_LIMIT fullState"
  using filled_run [of VESSEL_TRACKING_LIMIT]
  by (simp add: fullState_def VESSEL_TRACKING_LIMIT_def)

lemma filled_other:
  assumes "filled n s" and "\<exists>c \<in> set k. c \<noteq> CHR ''v''"
  shows "fmlookup (previousPositions s) k = None"
proof -
  have "k \<notin> fillName ` {..<n}"
  proof
    assume "k \<in> fillName ` {..<n}"
    then obtain i where "k = fillName i" by blast
    with assms(2) show False by (simp add: set_fillName)
  qed
  then show ?thesis using assms(1) by (simp add: filled_def)
qed


lemma filled_unique:
  assumes "filled n s" and "filled n s'"
  shows "previousPositions s' = previousPositions s"
  by (rule fmap_ext) (use assms in \<open>simp add: filled_def\<close>)

lemma fcard_fmupd_new:
  "fmlookup m k = None \<Longrightarrow> fcard (fmdom (fmupd k v m)) = fcard (fmdom m) + 1"
  by (simp add: fcard_finsert_disjoint fmdom_notI)

text \<open>
  C9. The bound fails for a vessel whose id names a member of \<open>Object.prototype\<close>.
  After the evaluations for 1000 distinct vessels the map of previous positions holds
  1000 entries, none for \<open>w\<close> and none for \<open>constructor\<close>. An evaluation for the
  vessel \<open>w\<close> is then refused a record, as the limit demands; the same evaluation for
  the vessel \<open>constructor\<close>, with the same fresh data, is recorded, and the map holds
  1001 entries.
\<close>

theorem previousPositions_exceeds_limit:
  "fcard (fmdom (previousPositions fullState)) = VESSEL_TRACKING_LIMIT \<and>
   fmlookup (previousPositions fullState) ''w'' = None \<and>
   fmlookup (previousPositions fullState) ''constructor'' = None \<and>
   previousPositions (snd (checkCollisionForVessel defaultOptions fillStore fillNow
                             ''vessels.w'' fullState)) = previousPositions fullState \<and>
   previousPositions (snd (checkCollisionForVessel defaultOptions fillStore fillNow
                             ''vessels.constructor'' fullState)) =
     fmupd ''constructor'' fillPoint (previousPositions fullState) \<and>
   fcard (fmdom (previousPositions (snd (checkCollisionForVessel defaultOptions fillStore fillNow
                                            ''vessels.constructor'' fullState)))) =
     VESSEL_TRACKING_LIMIT + 1"
proof -
  let ?s2 = "periodicCleanup defaultOptions fillStore fillNow (countCall fullState)"
  note f = filled_fullState
  note f2 = filled_start [OF f]
  have same: "previousPositions ?s2 = previousPositions fullState"
    by (rule filled_unique [OF f f2])
  have proto: "previousPositionsProto ?s2 = None" using f2 by (simp add: filled_def)
  have card: "fcard (fmdom (previousPositions fullState)) = VESSEL_TRACKING_LIMIT"
    by (rule filled_card [OF f])
  have new_w: "fmlookup (previousPositions fullState) ''w'' = None"
    by (rule filled_other [OF f]) simp
  have new_c: "fmlookup (previousPositions fullState) ''constructor'' = None"
    by (rule filled_other [OF f]) simp
  have ctx: "validContext ''vessels.w''" "lastSegment ''vessels.w'' = ''w''"
    "validContext ''vessels.constructor''" "lastSegment ''vessels.constructor'' = ''constructor''"
    by (simp_all add: validContext_def lastSegment_def)
  have own_w: "\<not> inheritedName ''w''"
    by (simp add: inheritedName_def objectPrototypeNames_def)
  have nj: "\<not> jumped (case fmlookup (previousPositions ?s2) ''w'' of
                        None \<Rightarrow> NotJumped
                      | Some prev \<Rightarrow> detectPositionJump fillVessel (Some prev))"
    by (simp add: same new_w)
  have "previousPositions
          (snd (checkPositionJump defaultOptions fillNow ''w'' (Some fillVessel) ?s2)) =
        previousPositions ?s2"
    unfolding checkPositionJump_ownName(3) [OF own_w proto nj fill_position,
        of defaultOptions fillNow]
    using card new_w by (simp add: same filled_cleanup [OF f2])
  then have w: "previousPositions (snd (checkCollisionForVessel defaultOptions fillStore fillNow
                             ''vessels.w'' fullState)) = previousPositions fullState"
    unfolding fill_evaluation [OF ctx(1)] ctx(2) evaluateTarget_previousPositions
    by (simp add: same)
  have name: "''constructor'' \<in> set objectPrototypeNames"
    by (simp add: objectPrototypeNames_def)
  have pos: "position fillVessel \<noteq> None" by (simp add: fill_position)
  have "previousPositions
          (snd (checkPositionJump defaultOptions fillNow ''constructor'' (Some fillVessel) ?s2)) =
        fmupd ''constructor'' fillPoint (previousPositions ?s2)"
    unfolding checkPositionJump_inheritedName [OF name _ proto pos, of defaultOptions fillNow,
        unfolded same, OF new_c]
    by (simp add: fillPoint_def same)
  then have c: "previousPositions (snd (checkCollisionForVessel defaultOptions fillStore fillNow
                             ''vessels.constructor'' fullState)) =
     fmupd ''constructor'' fillPoint (previousPositions fullState)"
    unfolding fill_evaluation [OF ctx(3)] ctx(4) evaluateTarget_previousPositions
    by (simp add: same)
  have "fcard (fmdom (fmupd ''constructor'' fillPoint (previousPositions fullState))) =
      VESSEL_TRACKING_LIMIT + 1"
    using fcard_fmupd_new [OF new_c, of fillPoint] card by simp
  with card new_w new_c w c show ?thesis by simp
qed

theorem previousPositions_exceeds_limit_witness:
  "VESSEL_TRACKING_LIMIT <
     fcard (fmdom (previousPositions (snd (checkCollisionForVessel defaultOptions fillStore fillNow
                                              ''vessels.constructor'' fullState))))"
proof -
  from previousPositions_exceeds_limit
  have "fcard (fmdom (previousPositions (snd (checkCollisionForVessel defaultOptions fillStore fillNow
                                              ''vessels.constructor'' fullState)))) =
     VESSEL_TRACKING_LIMIT + 1"
    by (elim conjE)
  then show ?thesis by simp
qed

end
